theory Spec2Isabelle
  imports Main "HOL-Library.Word"
begin

unbundle bit_operations_syntax

section \<open>Shallow embedding of app\_rtsp\_sip.c\<close>

text \<open>
  The C module is embedded function by function. A C string is a \<open>string\<close> (the bytes
  before the terminating NUL); a \<open>char *\<close> that walks a buffer is the suffix of the
  buffer that starts at the pointer. Behaviour that C leaves undefined (a write past a
  fixed-size array, a null dereference, a division by zero) is a value of \<open>fault\<close>,
  returned as \<open>Inl\<close>.
\<close>

datatype fault =
    DivisionByZero
  | BufferOverrun
  | NullDereference
  | UseAfterFree
  | UninitialisedRead

subsection \<open>Byte order\<close>

text \<open>
  \<open>htonl\<close> and \<open>htons\<close> depend on the host: the identity on a big-endian host, a byte
  swap on a little-endian one. The host's byte order is the parameter \<open>le\<close>.
\<close>

definition bswap32 :: "32 word \<Rightarrow> 32 word" where
  "bswap32 x =
     push_bit 24 (x AND 0xFF) OR push_bit 8 (x AND 0xFF00)
       OR (drop_bit 8 x AND 0xFF00) OR (drop_bit 24 x AND 0xFF)"

definition bswap16 :: "16 word \<Rightarrow> 16 word" where
  "bswap16 x = push_bit 8 (x AND 0xFF) OR (drop_bit 8 x AND 0xFF)"

definition htonl :: "bool \<Rightarrow> 32 word \<Rightarrow> 32 word" where
  "htonl le x = (if le then bswap32 x else x)"

definition htons :: "bool \<Rightarrow> 16 word \<Rightarrow> 16 word" where
  "htons le x = (if le then bswap16 x else x)"

subsection \<open>Media statistics and the RTCP receiver report\<close>

text \<open>\<open>struct MediaStats\<close>; the \<open>struct timeval time\<close> is kept as milliseconds.\<close>

record MediaStats =
  count :: "32 word"
  minSN :: "32 word"
  maxSN :: "32 word"
  lastTS :: "32 word"
  ssrc :: "32 word"
  time :: int

text \<open>\<open>struct RtcpCommonHeader\<close>, each bit-field with its width.\<close>

record RtcpCommonHeader =
  hdr_count :: "5 word"
  hdr_p :: "1 word"
  hdr_version :: "2 word"
  hdr_pt :: "8 word"
  hdr_length :: "16 word"

text \<open>\<open>struct RtcpReceptionReport\<close>: \<open>fraction\<close> is 8 bits wide, \<open>lost\<close> 24.\<close>

record RtcpReceptionReport =
  rr_ssrc :: "32 word"
  rr_fraction :: "8 word"
  rr_lost :: "24 word"
  rr_last_seq :: "32 word"
  rr_jitter :: "32 word"
  rr_lsr :: "32 word"
  rr_dlsr :: "32 word"

text \<open>\<open>struct Rtcp\<close> seen through its \<open>r.rr\<close> member, with the one report block \<open>rr[0]\<close>.\<close>

record Rtcp =
  common :: RtcpCommonHeader
  r_rr_ssrc :: "32 word"
  r_rr_rr0 :: RtcpReceptionReport

text \<open>Unsigned division as C has it: dividing by zero is undefined.\<close>

definition udiv32 :: "32 word \<Rightarrow> 32 word \<Rightarrow> fault + 32 word" where
  "udiv32 a b = (if b = 0 then Inl DivisionByZero else Inr (a div b))"

text \<open>
  \<open>MediaStatsReset\<close>; \<open>now\<close> is what \<open>ast_tvnow()\<close> returns. The \<open>ssrc\<close> field is
  left as it is.
\<close>

definition MediaStatsReset :: "int \<Rightarrow> MediaStats \<Rightarrow> MediaStats" where
  "MediaStatsReset now stats =
     stats\<lparr>count := 0, minSN := 0, maxSN := 0, lastTS := 0, time := now\<rparr>"

definition MediaStatsUpdate ::
  "MediaStats \<Rightarrow> 32 word \<Rightarrow> 32 word \<Rightarrow> 32 word \<Rightarrow> MediaStats" where
  "MediaStatsUpdate stats ts sn ssrc' =
     (let s1 = stats\<lparr>ssrc := ssrc', count := count stats + 1\<rparr>;
          s2 = (if minSN s1 = 0 then s1\<lparr>minSN := sn\<rparr> else s1);
          s3 = (if maxSN s2 < sn then s2\<lparr>maxSN := sn\<rparr> else s2)
      in s3\<lparr>lastTS := ts\<rparr>)"

text \<open>
  \<open>MediaStatsRR\<close>. Every field of the packet is written, so the packet handed in does
  not matter. \<open>rnd\<close> is the value of \<open>(uint32_t)random()\<close> and \<open>elapsed\<close> the
  value of \<open>ast_tvdiff_ms(ast_tvnow(), stats->time)\<close>. The arithmetic is that of
  \<open>unsigned int\<close>: \<open>maxSN - minSN\<close> wraps, and the quotient is cut to the 8 bits of
  the \<open>fraction\<close> field.
\<close>

definition MediaStatsRR :: "bool \<Rightarrow> 32 word \<Rightarrow> int \<Rightarrow> MediaStats \<Rightarrow> fault + Rtcp" where
  "MediaStatsRR le rnd elapsed stats =
     (case (if 0 < maxSN stats - minSN stats
            then (case udiv32 (255 * count stats) (maxSN stats - minSN stats) of
                    Inl e \<Rightarrow> Inl e
                  | Inr d \<Rightarrow> Inr (ucast d :: 8 word))
            else Inr 0xFF) of
        Inl e \<Rightarrow> Inl e
      | Inr fraction \<Rightarrow>
          Inr \<lparr> common = \<lparr> hdr_count = 1, hdr_p = 0, hdr_version = 2, hdr_pt = 201,
                           hdr_length = htons le 7 \<rparr>,
                r_rr_ssrc = htonl le rnd,
                r_rr_rr0 = \<lparr> rr_ssrc = htonl le (ssrc stats),
                             rr_fraction = fraction,
                             rr_lost = ucast (htonl le (maxSN stats - minSN stats - count stats)),
                             rr_last_seq = htonl le (maxSN stats),
                             rr_jitter = htonl le 0xFF,
                             rr_lsr = htonl le (lastTS stats),
                             rr_dlsr = htonl le (word_of_int elapsed) \<rparr> \<rparr>)"

subsection \<open>Allocation of an RTP/RTCP port pair\<close>

text \<open>
  \<open>GetUdpPorts\<close> talks to the operating system: \<open>socket\<close>, \<open>bind\<close> and
  \<open>getsockname\<close>. The system is the parameter \<open>os\<close>: \<open>os k req\<close> is the descriptor of
  the \<open>k\<close>-th socket created and the port \<open>getsockname\<close> reports for it after the
  \<open>bind\<close> to port \<open>req\<close> (0 asks for any port). The retry loop has no bound in the
  source, so it is a partial function: \<open>None\<close> is a run that never leaves the loop.
\<close>

record udp_ports =
  sock_a :: int
  sock_b :: int
  port_p :: int
  port_q :: int

partial_function (option) GetUdpPorts_loop ::
  "(nat \<Rightarrow> int \<Rightarrow> int \<times> int) \<Rightarrow> nat \<Rightarrow> udp_ports \<Rightarrow> udp_ports option" where
  "GetUdpPorts_loop os k s =
     (if port_p s mod 2 \<noteq> 0 \<or> port_p s + 1 \<noteq> port_q s
      then (let p' = port_q s;
                req = (if p' > 0 then (p' + 1) mod 65536 else 0);
                (b', q') = os k req
            in GetUdpPorts_loop os (Suc k)
                 \<lparr> sock_a = sock_b s, sock_b = b', port_p = p', port_q = q' \<rparr>)
      else Some s)"

definition GetUdpPorts :: "(nat \<Rightarrow> int \<Rightarrow> int \<times> int) \<Rightarrow> udp_ports option" where
  "GetUdpPorts os =
     (let (a, p) = os 0 0;
          (b, q) = os 1 0
      in GetUdpPorts_loop os 2 \<lparr> sock_a = a, sock_b = b, port_p = p, port_q = q \<rparr>)"

text \<open>A system whose answers are listed: the \<open>k\<close>-th socket gets the \<open>k\<close>-th port.\<close>

definition os_of_list :: "int list \<Rightarrow> nat \<Rightarrow> int \<Rightarrow> int \<times> int" where
  "os_of_list ports k req = (int k + 3, if k < length ports then ports ! k else 0)"

subsection \<open>C library functions on strings\<close>

definition CR :: char where "CR = CHR 0x0D"
definition LF :: char where "LF = CHR 0x0A"
definition HT :: char where "HT = CHR 0x09"
definition SP :: char where "SP = CHR 0x20"
definition DQUOTE :: char where "DQUOTE = CHR 0x22"
definition BACKSLASH :: char where "BACKSLASH = CHR 0x5C"

definition CRLF :: string where "CRLF = [CR, LF]"

text \<open>\<open>isspace\<close>, \<open>isdigit\<close> and \<open>isalnum\<close> in the C locale.\<close>

definition isspace :: "char \<Rightarrow> bool" where
  "isspace c \<longleftrightarrow> c = SP \<or> (9 \<le> (of_char c :: nat) \<and> (of_char c :: nat) \<le> 13)"

definition isdigit :: "char \<Rightarrow> bool" where
  "isdigit c \<longleftrightarrow> 48 \<le> (of_char c :: nat) \<and> (of_char c :: nat) \<le> 57"

definition isalnum :: "char \<Rightarrow> bool" where
  "isalnum c \<longleftrightarrow> isdigit c
     \<or> (65 \<le> (of_char c :: nat) \<and> (of_char c :: nat) \<le> 90)
     \<or> (97 \<le> (of_char c :: nat) \<and> (of_char c :: nat) \<le> 122)"

definition tolower :: "char \<Rightarrow> char" where
  "tolower c =
     (if 65 \<le> (of_char c :: nat) \<and> (of_char c :: nat) \<le> 90
      then char_of ((of_char c :: nat) + 32) else c)"

text \<open>
  \<open>starts_with s t\<close>: the string at the pointer \<open>s\<close> begins with \<open>t\<close>; this is
  \<open>strncmp(s, t, strlen(t)) == 0\<close>.
\<close>

fun starts_with :: "string \<Rightarrow> string \<Rightarrow> bool" where
  "starts_with s [] = True"
| "starts_with [] (y # ys) = False"
| "starts_with (x # xs) (y # ys) = (x = y \<and> starts_with xs ys)"

text \<open>
  \<open>strstr\<close>: the offset of the first occurrence of the needle, \<open>None\<close> for the null
  pointer.
\<close>

fun strstr :: "string \<Rightarrow> string \<Rightarrow> nat option" where
  "strstr [] needle = (if needle = [] then Some 0 else None)"
| "strstr (c # cs) needle =
     (if starts_with (c # cs) needle then Some 0
      else (case strstr cs needle of None \<Rightarrow> None | Some k \<Rightarrow> Some (Suc k)))"

text \<open>The string without its trailing white space.\<close>

definition drop_trailing_space :: "string \<Rightarrow> string" where
  "drop_trailing_space s = rev (dropWhile isspace (rev s))"

text \<open>
  \<open>trim_whitespace\<close> advances its own copy of the pointer over the leading white
  space and then cuts the trailing white space by writing a NUL. The caller's buffer
  still starts where it did, so the leading white space stays in it.
\<close>

definition trim_whitespace :: "string \<Rightarrow> string" where
  "trim_whitespace str =
     takeWhile isspace str @ drop_trailing_space (dropWhile isspace str)"

text \<open>\<open>get_trimmed_string\<close> copies the part between the leading and the trailing white space.\<close>

definition get_trimmed_string :: "string \<Rightarrow> string" where
  "get_trimmed_string str = drop_trailing_space (dropWhile isspace str)"

subsection \<open>Message and header parsing\<close>

definition MAX_HEADERS :: nat where "MAX_HEADERS = 100"
definition MAX_HEADER_LINE :: nat where "MAX_HEADER_LINE = 1024"
definition MAX_FIELD_NAME :: nat where "MAX_FIELD_NAME = 1024"
definition MAX_FIELD_VALUE :: nat where "MAX_FIELD_VALUE = 1024"
definition MAX_TOKEN :: nat where "MAX_TOKEN = 512"
definition MAX_AUTH_KEY_VAL :: nat where "MAX_AUTH_KEY_VAL = 20"

record HeaderStruct =
  field_name :: string
  field_value :: string

text \<open>
  \<open>parse_message\<close>: the headers start after the first CR LF; \<open>None\<close> is the
  return value \<open>-1\<close>.
\<close>

definition parse_message :: "string \<Rightarrow> string option" where
  "parse_message buffer =
     (case strstr buffer CRLF of None \<Rightarrow> None | Some k \<Rightarrow> Some (drop (k + 2) buffer))"

text \<open>
  The inner \<open>do ... while (line_extended)\<close> loop of \<open>parse_headers\<close>. The buffer
  \<open>s\<close> starts at \<open>line_start\<close> and \<open>off\<close> is the offset of \<open>fold_start\<close>; the
  result is the offset of \<open>line_end\<close>, or \<open>None\<close> when \<open>strstr\<close> finds no CR LF.
\<close>

function find_line_end :: "string \<Rightarrow> nat \<Rightarrow> nat option" where
  "find_line_end s off =
     (case strstr (drop off s) CRLF of
        None \<Rightarrow> None
      | Some k \<Rightarrow>
          (if off + k + 2 < length s \<and> (s ! (off + k + 2) = SP \<or> s ! (off + k + 2) = HT)
           then find_line_end s (off + k + 2)
           else Some (off + k)))"
  by pat_completeness auto
termination
  by (relation "measure (\<lambda>(s, off). length s - off)") auto

declare find_line_end.simps [simp del]

text \<open>
  \<open>strncpy(dst, src, n)\<close> into a buffer of \<open>n\<close> bytes that is read back as a string:
  a source of \<open>n\<close> bytes or more would leave the buffer without its NUL.
\<close>

definition strncpy :: "nat \<Rightarrow> string \<Rightarrow> fault + string" where
  "strncpy n src = (if length src < n then Inr src else Inl BufferOverrun)"

text \<open>
  The \<open>while\<close> loop of \<open>parse_headers\<close>. The header list is the array with its
  \<open>count\<close>; the result is the return value and the list.
\<close>

function parse_headers_loop ::
  "string \<Rightarrow> HeaderStruct list \<Rightarrow> fault + (int \<times> HeaderStruct list)" where
  "parse_headers_loop line_start header_list =
     (if line_start \<noteq> [] \<and> length header_list < MAX_HEADERS
      then (case find_line_end line_start 0 of
              None \<Rightarrow> Inr (0, header_list)
            | Some line_len \<Rightarrow>
                if line_len = 0 then Inr (0, header_list)
                else if line_len \<ge> MAX_HEADER_LINE then Inr (- 1, header_list)
                else (let line = take line_len line_start in
                      if CHR '':'' \<notin> set line then Inr (- 1, header_list)
                      else (case strncpy MAX_FIELD_NAME (takeWhile (\<lambda>c. c \<noteq> CHR '':'') line) of
                              Inl e \<Rightarrow> Inl e
                            | Inr name \<Rightarrow>
                          (case strncpy MAX_FIELD_VALUE (tl (dropWhile (\<lambda>c. c \<noteq> CHR '':'') line)) of
                              Inl e \<Rightarrow> Inl e
                            | Inr val \<Rightarrow>
                                parse_headers_loop (drop (line_len + 2) line_start)
                                  (header_list @
                                     [\<lparr> field_name = trim_whitespace name,
                                        field_value = trim_whitespace val \<rparr>])))))
      else Inr (0, header_list))"
  by pat_completeness auto
termination
  by (relation "measure (\<lambda>(line_start, header_list). length line_start)") auto

declare parse_headers_loop.simps [simp del]

definition parse_headers :: "string \<Rightarrow> fault + (int \<times> HeaderStruct list)" where
  "parse_headers buffer = parse_headers_loop buffer []"

subsection \<open>Authentication challenges\<close>

text \<open>
  \<open>parse_auth_scheme\<close>: the scheme is the text up to the first white space, at most
  \<open>MAX_TOKEN - 1\<close> bytes; \<open>rest\<close> starts after the white space that follows.
\<close>

definition parse_auth_scheme :: "string \<Rightarrow> string \<times> string" where
  "parse_auth_scheme input =
     (let scheme = take (MAX_TOKEN - 1) (takeWhile (\<lambda>c. \<not> isspace c) input)
      in (scheme, dropWhile isspace (drop (length scheme) input)))"

definition is_token68 :: "string \<Rightarrow> bool" where
  "is_token68 str =
     list_all (\<lambda>c. isalnum c \<or> c = CHR ''+'' \<or> c = CHR ''/'' \<or> c = CHR ''='') str"

text \<open>
  The loop that copies a quoted value: \<open>prev\<close> is the byte at \<open>p - 1\<close> and \<open>i\<close> the
  number of bytes copied. It stops at a quote that no backslash precedes, at the end of
  the string, or when the value buffer is full.
\<close>

fun quoted_value :: "char \<Rightarrow> string \<Rightarrow> nat \<Rightarrow> string" where
  "quoted_value prev [] i = []"
| "quoted_value prev (c # cs) i =
     (if i < MAX_TOKEN - 1 \<and> \<not> (c = DQUOTE \<and> prev \<noteq> BACKSLASH)
      then c # quoted_value c cs (Suc i) else [])"

text \<open>
  The value of a parameter, with \<open>p\<close> just after the \<open>=\<close>: the value and where
  \<open>p\<close> stands afterwards.
\<close>

definition parse_auth_value :: "string \<Rightarrow> string \<times> string" where
  "parse_auth_value p =
     (case p of
        c # q \<Rightarrow>
          if c = DQUOTE
          then (let v = quoted_value DQUOTE q 0; q' = drop (length v) q
                in (v, case q' of d # q'' \<Rightarrow> if d = DQUOTE then q'' else q' | [] \<Rightarrow> q'))
          else (let v = take (MAX_TOKEN - 1) (takeWhile (\<lambda>c. c \<noteq> CHR '','') p)
                in (v, drop (length v) p))
      | [] \<Rightarrow> ([], []))"

lemma drop_Cons_shorter:
  assumes "drop n q = d # x"
  shows "length x < length q"
proof -
  from assms have "length (drop n q) = Suc (length x)" by simp
  then show ?thesis by simp
qed

lemma length_parse_auth_value: "length (snd (parse_auth_value p)) \<le> length p"
proof (cases p)
  case Nil
  then show ?thesis by (simp add: parse_auth_value_def)
next
  case (Cons c q)
  show ?thesis
  proof (cases "c = DQUOTE")
    case True
    then show ?thesis
      by (auto simp: parse_auth_value_def Let_def Cons split: list.splits
               dest!: drop_Cons_shorter)
  next
    case False
    then show ?thesis by (simp add: parse_auth_value_def Let_def Cons)
  qed
qed

text \<open>
  The \<open>while (*p)\<close> loop of \<open>parse_auth_params\<close>. \<open>acc\<close> holds the pairs stored so
  far in \<open>param_key\<close> and \<open>param_val\<close>, so \<open>param_kv_count\<close> is its length. The
  arrays of the caller have \<open>MAX_AUTH_KEY_VAL\<close> slots; the key is stored before the
  \<open>=\<close> is looked for, so a key read when the arrays are full is a write past their end.
  The result is the list of pairs and \<open>more_auths\<close>, the place where a key without
  \<open>=\<close> began (\<open>None\<close> for the null pointer). \<open>ast_strdup\<close> is taken to succeed.
\<close>

function parse_auth_params_loop ::
  "string \<Rightarrow> (string \<times> string) list \<Rightarrow> fault + ((string \<times> string) list \<times> string option)" where
  "parse_auth_params_loop p acc =
     (if p = [] then Inr (acc, None)
      else (let p1 = dropWhile (\<lambda>c. isspace c \<or> c = CHR '','') p;
                key = take (MAX_TOKEN - 1) (takeWhile (\<lambda>c. c \<noteq> CHR ''='' \<and> c \<noteq> SP) p1);
                p2 = drop (length key) p1
            in if length acc \<ge> MAX_AUTH_KEY_VAL then Inl BufferOverrun
               else (case p2 of
                       [] \<Rightarrow> Inr (acc, Some p1)
                     | c # p3 \<Rightarrow>
                         if c \<noteq> CHR ''='' then Inr (acc, Some p1)
                         else parse_auth_params_loop (snd (parse_auth_value p3))
                                (acc @ [(key, fst (parse_auth_value p3))]))))"
  by pat_completeness auto
termination
proof (relation "measure (\<lambda>(p, acc). length p)")
  show "wf (measure (\<lambda>(p, acc). length p))" by simp
next
  fix p p1 key p2 p3 :: string and acc :: "(string \<times> string) list" and c :: char
  assume p1: "p1 = dropWhile (\<lambda>c. isspace c \<or> c = CHR '','') p"
    and p2: "p2 = drop (length key) p1" and c: "p2 = c # p3"
  from p2 c have "length p3 < length p1"
    by (auto dest: drop_Cons_shorter [OF sym])
  moreover have "length p1 \<le> length p"
    unfolding p1 by (rule length_dropWhile_le)
  ultimately have "length p3 < length p" by linarith
  with length_parse_auth_value [of p3]
  show "((snd (parse_auth_value p3), acc @ [(key, fst (parse_auth_value p3))]), (p, acc))
          \<in> measure (\<lambda>(p, acc). length p)"
    by simp
qed

declare parse_auth_params_loop.simps [simp del]

definition parse_auth_params ::
  "string \<Rightarrow> fault + ((string \<times> string) list \<times> string option)" where
  "parse_auth_params str = parse_auth_params_loop str []"

text \<open>
  What \<open>CheckAuthScheme\<close> hands back: the return code, the caller's arrays
  \<open>auth_paramkey\<close> and \<open>auth_paramval\<close> as one list of slots (\<open>None\<close> is a slot that
  was never written), and \<open>*auth_paramcount\<close> (\<open>None\<close> while it was never written).
\<close>

record auth_out =
  return_code :: int
  auth_params :: "(string \<times> string) option list"
  auth_paramcount :: "nat option"

definition set_slot ::
  "(string \<times> string) option list \<Rightarrow> nat \<Rightarrow> string \<times> string \<Rightarrow> (string \<times> string) option list" where
  "set_slot slots j kv =
     (if j < length slots then slots[j := Some kv]
      else slots @ replicate (j - length slots) None @ [Some kv])"

text \<open>
  The \<open>for (j = 0; j < param_count; j++)\<close> loop of \<open>CheckAuthScheme\<close>: once
  \<open>return_code\<close> is 0, every parsed pair is copied to the caller's arrays.
\<close>

fun copy_params :: "(string \<times> string) list \<Rightarrow> nat \<Rightarrow> nat \<Rightarrow> auth_out \<Rightarrow> auth_out" where
  "copy_params [] j param_count out = out"
| "copy_params (kv # kvs) j param_count out =
     copy_params kvs (Suc j) param_count
       (if return_code out = 0
        then out\<lparr> auth_params := set_slot (auth_params out) j kv,
                  auth_paramcount := Some param_count \<rparr>
        else out)"

lemma length_parse_auth_scheme_rest:
  "length (snd (parse_auth_scheme input)) \<le> length input"
  using length_dropWhile_le [of isspace "drop (length (fst (parse_auth_scheme input))) input"]
  by (simp add: parse_auth_scheme_def Let_def)

lemma parse_auth_scheme_rest_shorter:
  assumes "snd (parse_auth_scheme input) \<noteq> []"
  shows "length (snd (parse_auth_scheme input)) < length input"
proof (cases input)
  case Nil
  with assms show ?thesis by (simp add: parse_auth_scheme_def)
next
  case (Cons c cs)
  show ?thesis
  proof (cases "isspace c")
    case True
    then have "snd (parse_auth_scheme input) = dropWhile isspace cs"
      by (simp add: Cons parse_auth_scheme_def)
    then show ?thesis
      using length_dropWhile_le [of isspace cs] by (simp add: Cons)
  next
    case False
    then have "length (fst (parse_auth_scheme input)) \<ge> 1"
      by (simp add: Cons parse_auth_scheme_def MAX_TOKEN_def)
    then have "length (drop (length (fst (parse_auth_scheme input))) input) < length input"
      by (simp add: Cons)
    moreover have "length (snd (parse_auth_scheme input))
        \<le> length (drop (length (fst (parse_auth_scheme input))) input)"
      using length_dropWhile_le [of isspace "drop (length (fst (parse_auth_scheme input))) input"]
      by (simp add: parse_auth_scheme_def Let_def)
    ultimately show ?thesis by linarith
  qed
qed

lemma parse_auth_params_loop_more_auths:
  "parse_auth_params_loop p acc = Inr (kvs, Some m) \<Longrightarrow> length m \<le> length p"
proof (induction p acc rule: parse_auth_params_loop.induct)
  case (1 p acc)
  define p1 where "p1 = dropWhile (\<lambda>c. isspace c \<or> c = CHR '','') p"
  define key where "key = take (MAX_TOKEN - 1) (takeWhile (\<lambda>c. c \<noteq> CHR ''='' \<and> c \<noteq> SP) p1)"
  define p2 where "p2 = drop (length key) p1"
  have p1_le: "length p1 \<le> length p"
    unfolding p1_def by (rule length_dropWhile_le)
  note unfold = parse_auth_params_loop.simps [of p acc, unfolded Let_def,
      folded p1_def, folded key_def, folded p2_def]
  from "1.prems" have ne: "p \<noteq> []" and small: "\<not> length acc \<ge> MAX_AUTH_KEY_VAL"
    by (auto simp: unfold split: if_splits)
  show ?case
  proof (cases p2)
    case Nil
    with "1.prems" ne small p1_le show ?thesis
      by (simp add: unfold)
  next
    case (Cons c p3)
    show ?thesis
    proof (cases "c = CHR ''=''")
      case False
      with "1.prems" ne small p1_le Cons show ?thesis
        by (simp add: unfold)
    next
      case True
      from "1.prems" ne small Cons True
      have rec: "parse_auth_params_loop (snd (parse_auth_value p3))
                   (acc @ [(key, fst (parse_auth_value p3))]) = Inr (kvs, Some m)"
        by (simp add: unfold)
      have "length m \<le> length (snd (parse_auth_value p3))"
        by (rule "1.IH" [OF ne p1_def key_def p2_def small Cons _ rec])
           (use True in auto)
      moreover have "length p3 < length p1"
        using Cons by (auto simp: p2_def dest: drop_Cons_shorter)
      ultimately show ?thesis
        using length_parse_auth_value [of p3] p1_le by linarith
    qed
  qed
qed
text \<open>
  The \<open>do ... while (more_auths != NULL)\<close> loop of \<open>CheckAuthScheme\<close> over the
  challenges of one header value.
\<close>

function CheckAuthScheme_challenges :: "string \<Rightarrow> string \<Rightarrow> auth_out \<Rightarrow> fault + auth_out" where
  "CheckAuthScheme_challenges scheme_to_match auth_start out =
     (let scheme = fst (parse_auth_scheme auth_start);
          rest = snd (parse_auth_scheme auth_start);
          out1 = (if scheme = scheme_to_match then out\<lparr> return_code := 0 \<rparr> else out)
      in if rest = []
         then Inr (out1\<lparr> auth_params := set_slot (auth_params out1) 0 (''None'', ''None''),
                         auth_paramcount := Some 1 \<rparr>)
         else if is_token68 rest
         then Inr (out1\<lparr> auth_params := set_slot (auth_params out1) 0 (''Token68'', rest),
                         auth_paramcount := Some 1 \<rparr>)
         else (case parse_auth_params rest of
                 Inl e \<Rightarrow> Inl e
               | Inr (kvs, more_auths) \<Rightarrow>
                   (case more_auths of
                      None \<Rightarrow> Inr (copy_params kvs 0 (length kvs) out1)
                    | Some m \<Rightarrow>
                        CheckAuthScheme_challenges scheme_to_match m
                          (copy_params kvs 0 (length kvs) out1))))"
  by pat_completeness auto
termination
proof (relation "measure (\<lambda>(scheme_to_match, auth_start, out). length auth_start)")
  show "wf (measure (\<lambda>(scheme_to_match, auth_start, out). length auth_start))" by simp
next
  fix scheme_to_match auth_start scheme rest m :: string and out out1 :: auth_out
    and b :: "(string \<times> string) list \<times> string option"
    and kvs :: "(string \<times> string) list" and more_auths :: "string option"
  assume rest: "rest = snd (parse_auth_scheme auth_start)" and ne: "rest \<noteq> []"
    and pp: "parse_auth_params rest = Inr b" and b: "(kvs, more_auths) = b"
    and m: "more_auths = Some m"
  from pp b m have "length m \<le> length rest"
    by (auto simp: parse_auth_params_def dest: parse_auth_params_loop_more_auths)
  moreover from rest ne have "length rest < length auth_start"
    using parse_auth_scheme_rest_shorter [of auth_start] by simp
  ultimately show "((scheme_to_match, m, copy_params kvs 0 (length kvs) out1),
          scheme_to_match, auth_start, out)
        \<in> measure (\<lambda>(scheme_to_match, auth_start, out). length auth_start)"
    by simp
qed

declare CheckAuthScheme_challenges.simps [simp del]

text \<open>
  The \<open>for\<close> loop of \<open>CheckAuthScheme\<close> over the parsed headers: every header whose
  name contains \<open>WWW-Authenticate\<close> has its value trimmed and scanned.
\<close>

fun CheckAuthScheme_headers :: "string \<Rightarrow> HeaderStruct list \<Rightarrow> auth_out \<Rightarrow> fault + auth_out" where
  "CheckAuthScheme_headers scheme_to_match [] out = Inr out"
| "CheckAuthScheme_headers scheme_to_match (h # hs) out =
     (if strstr (field_name h) ''WWW-Authenticate'' \<noteq> None
      then (case CheckAuthScheme_challenges scheme_to_match
                   (get_trimmed_string (field_value h)) out of
              Inl e \<Rightarrow> Inl e
            | Inr out' \<Rightarrow> CheckAuthScheme_headers scheme_to_match hs out')
      else CheckAuthScheme_headers scheme_to_match hs out)"

text \<open>
  \<open>CheckAuthScheme\<close>. The arrays and the count of the caller are uninitialised on
  entry; \<open>return_code\<close> starts at \<open>-10\<close>.
\<close>

definition CheckAuthScheme :: "string \<Rightarrow> string \<Rightarrow> fault + auth_out" where
  "CheckAuthScheme buffer scheme_to_match =
     (case parse_message buffer of
        None \<Rightarrow> Inr \<lparr> return_code = - 1, auth_params = [], auth_paramcount = None \<rparr>
      | Some headers_start \<Rightarrow>
          (case parse_headers headers_start of
             Inl e \<Rightarrow> Inl e
           | Inr (rc, headers) \<Rightarrow>
               if rc = 0
               then CheckAuthScheme_headers scheme_to_match headers
                      \<lparr> return_code = - 10, auth_params = [], auth_paramcount = None \<rparr>
               else Inr \<lparr> return_code = - 2, auth_params = [], auth_paramcount = None \<rparr>))"

subsection \<open>Reading the parameters of a challenge\<close>

text \<open>
  A fixed-size \<open>char\<close> array that receives a string by \<open>strcpy\<close> or \<open>sprintf\<close>:
  the string and its NUL must fit into the \<open>n\<close> bytes.
\<close>

definition store_string :: "nat \<Rightarrow> string \<Rightarrow> fault + string" where
  "store_string n str = (if length str < n then Inr str else Inl BufferOverrun)"

text \<open>Sequencing of steps that may fault.\<close>

definition and_then :: "fault + 'a \<Rightarrow> ('a \<Rightarrow> fault + 'b) \<Rightarrow> fault + 'b" where
  "and_then r f = (case r of Inl e \<Rightarrow> Inl e | Inr x \<Rightarrow> f x)"

text \<open>
  The pairs a caller of \<open>CheckAuthScheme\<close> reads: slots \<open>0 .. auth_paramcount - 1\<close>
  of its arrays. A slot that was never written holds an indeterminate pointer.
\<close>

fun read_slots :: "(string \<times> string) option list \<Rightarrow> nat \<Rightarrow> nat \<Rightarrow> fault + (string \<times> string) list" where
  "read_slots slots pi 0 = Inr []"
| "read_slots slots pi (Suc n) =
     (if pi < length slots
      then (case slots ! pi of
              None \<Rightarrow> Inl UninitialisedRead
            | Some kv \<Rightarrow> and_then (read_slots slots (Suc pi) n) (\<lambda>kvs. Inr (kv # kvs)))
      else Inl UninitialisedRead)"

definition read_params :: "auth_out \<Rightarrow> fault + (string \<times> string) list" where
  "read_params out =
     (case auth_paramcount out of
        None \<Rightarrow> Inl UninitialisedRead
      | Some n \<Rightarrow> read_slots (auth_params out) 0 n)"

text \<open>\<open>struct BasicAuthData\<close> and \<open>struct DigestAuthData\<close>, with the sizes of their arrays.\<close>

record BasicAuthData =
  basic_rx_realm :: string


fun basic_params :: "(string \<times> string) list \<Rightarrow> BasicAuthData \<Rightarrow> fault + BasicAuthData" where
  "basic_params [] d = Inr d"
| "basic_params ((k, v) # kvs) d =
     and_then (if k = ''realm''
               then and_then (store_string 128 v) (\<lambda>r. Inr (d\<lparr> basic_rx_realm := r \<rparr>))
               else Inr d)
       (basic_params kvs)"

text \<open>
  \<open>GetAuthSchemeBasic\<close>: the return code and the data. The realm is empty unless a
  parameter named \<open>realm\<close> is read.
\<close>

definition GetAuthSchemeBasic :: "string \<Rightarrow> fault + (int \<times> BasicAuthData)" where
  "GetAuthSchemeBasic buffer =
     and_then (CheckAuthScheme buffer ''Basic'') (\<lambda>out.
       if return_code out = 0
       then and_then (read_params out) (\<lambda>kvs.
              and_then (basic_params kvs \<lparr> basic_rx_realm = [] \<rparr>) (\<lambda>d. Inr (0, d)))
       else Inr (- 1, \<lparr> basic_rx_realm = [] \<rparr>))"





subsection \<open>The digest response and the Authorization header\<close>

text \<open>
  \<open>auth_digest\<close>. \<open>md5\<close> stands for Asterisk's \<open>ast_md5_hash\<close>, which is not part of
  this module: it maps a string to the string it writes into the output buffer. The
  result is the return value and the content of \<open>digest_result\<close>, \<open>None\<close> when the
  function never writes it.
\<close>

definition auth_digest ::
  "(string \<Rightarrow> string) \<Rightarrow> string \<Rightarrow> string \<Rightarrow> string \<Rightarrow> string \<Rightarrow> string \<Rightarrow> string
     \<Rightarrow> fault + (int \<times> string option)" where
  "auth_digest md5 username passwd realm nonce uri method =
     and_then (store_string 256 (md5 ''abcdefghijklmnopqrstuvwxyz'')) (\<lambda>hash_result.
       if ''c3fcd3d76192e4007dfb496cca67e13b'' \<noteq> hash_result then Inr (- 1, None)
       else
         and_then (store_string 256 (username @ '':'' @ realm @ '':'' @ passwd)) (\<lambda>A1.
         and_then (store_string 256 (md5 A1)) (\<lambda>HA1.
         and_then (store_string 256 (method @ '':'' @ uri)) (\<lambda>A2.
         and_then (store_string 256 (md5 A2)) (\<lambda>HA2.
         and_then (store_string 513 (HA1 @ '':'' @ nonce @ '':'' @ HA2)) (\<lambda>KD_ARGS.
         and_then (store_string 256 (md5 KD_ARGS)) (\<lambda>digest_result.
           Inr (0, Some digest_result))))))))"

text \<open>The fields of \<open>struct RtspPlayer\<close> that the functions below read or write.\<close>

record RtspPlayer =
  authorization :: "string option"
  hostport :: string
  player_ip :: string
  in_a_dialog :: bool
  cseqm_INVITE :: int


definition quoted :: "string \<Rightarrow> string" where
  "quoted str = [DQUOTE] @ str @ [DQUOTE]"

text \<open>
  \<open>RtspPlayerDigestAuthorization\<close>: the return value and the player. \<open>nc\<close>,
  \<open>cnonce\<close> and \<open>qop\<close> are pointers that may be null. When \<open>auth_digest\<close> fails
  its self-test the function only logs and goes on to format \<open>digest_result\<close>, which
  was never written.
\<close>

definition RtspPlayerDigestAuthorization ::
  "(string \<Rightarrow> string) \<Rightarrow> RtspPlayer \<Rightarrow> string \<Rightarrow> string \<Rightarrow> string \<Rightarrow> string
     \<Rightarrow> string option \<Rightarrow> string option \<Rightarrow> string option \<Rightarrow> string \<Rightarrow> string \<Rightarrow> string \<Rightarrow> bool
     \<Rightarrow> fault + (int \<times> RtspPlayer)" where
  "RtspPlayerDigestAuthorization md5 player cfg_username cfg_password cfg_realm nonce
       nc cnonce qop uri rx_realm method isSIP =
     (if cfg_realm \<noteq> rx_realm then Inr (- 1, player)
      else
        and_then (auth_digest md5 cfg_username cfg_password rx_realm nonce uri method) (\<lambda>res.
          case snd res of
            None \<Rightarrow> Inl UninitialisedRead
          | Some digest_result \<Rightarrow>
              and_then (store_string 256
                 (''Authorization: Digest username='' @ quoted cfg_username
                    @ '', realm='' @ quoted rx_realm @ '', nonce='' @ quoted nonce
                    @ '', uri='' @ quoted uri @ '', response='' @ quoted digest_result
                    @ '', algorithm=MD5''
                    @ (if isSIP
                       then (case cnonce of None \<Rightarrow> [] | Some v \<Rightarrow> '',cnonce'' @ quoted v)
                          @ (case qop of None \<Rightarrow> [] | Some v \<Rightarrow> '',qop'' @ quoted v)
                          @ (case nc of None \<Rightarrow> [] | Some v \<Rightarrow> '',nc'' @ quoted v)
                       else (case cnonce of None \<Rightarrow> [] | Some v \<Rightarrow> '', cnonce='' @ quoted v)
                          @ (case qop of None \<Rightarrow> [] | Some v \<Rightarrow> '', qop='' @ quoted v)
                          @ (case nc of None \<Rightarrow> [] | Some v \<Rightarrow> '', nc='' @ quoted v))))
                (\<lambda>hdr. Inr (1, player\<lparr> authorization := Some hdr \<rparr>))))"

subsection \<open>The branches of \<open>main_loop\<close> that answer a 401 response\<close>








subsection \<open>Session descriptions\<close>

text \<open>
  The format macros of Asterisk that the table \<open>mimeTypes\<close> names. Their values come
  from Asterisk's \<open>format_compatibility.h\<close>, which is not part of this module, so they
  are the parameter \<open>bitfield\<close>; \<open>AST_FORMAT_AMRNB\<close> alone is defined by the module
  itself, as 0.
\<close>

datatype ast_format_macro =
    AST_FORMAT_G723 | AST_FORMAT_GSM | AST_FORMAT_ULAW | AST_FORMAT_ALAW
  | AST_FORMAT_G726 | AST_FORMAT_ADPCM | AST_FORMAT_SLIN | AST_FORMAT_LPC10
  | AST_FORMAT_G729 | AST_FORMAT_SPEEX | AST_FORMAT_ILBC | AST_FORMAT_G722
  | AST_FORMAT_G726_AAL2 | AST_FORMAT_AMRNB | AST_FORMAT_JPEG | AST_FORMAT_PNG
  | AST_FORMAT_H261 | AST_FORMAT_H263 | AST_FORMAT_H263P | AST_FORMAT_H264
  | AST_FORMAT_MP4

definition mimeTypes :: "(ast_format_macro \<times> string) list" where
  "mimeTypes =
     [(AST_FORMAT_G723, ''G723''), (AST_FORMAT_GSM, ''GSM''), (AST_FORMAT_ULAW, ''PCMU''),
      (AST_FORMAT_ALAW, ''PCMA''), (AST_FORMAT_G726, ''G726-32''), (AST_FORMAT_ADPCM, ''DVI4''),
      (AST_FORMAT_SLIN, ''L16''), (AST_FORMAT_LPC10, ''LPC''), (AST_FORMAT_G729, ''G729''),
      (AST_FORMAT_SPEEX, ''speex''), (AST_FORMAT_ILBC, ''iLBC''), (AST_FORMAT_G722, ''G722''),
      (AST_FORMAT_G726_AAL2, ''AAL2-G726-32''), (AST_FORMAT_AMRNB, ''AMR''),
      (AST_FORMAT_JPEG, ''JPEG''), (AST_FORMAT_PNG, ''PNG''), (AST_FORMAT_H261, ''H261''),
      (AST_FORMAT_H263, ''H263''), (AST_FORMAT_H263P, ''H263-2000''),
      (AST_FORMAT_H264, ''H264''), (AST_FORMAT_MP4, ''MP4V-ES'')]"

definition format_value :: "(ast_format_macro \<Rightarrow> 64 word) \<Rightarrow> ast_format_macro \<Rightarrow> 64 word" where
  "format_value bitfield m = (if m = AST_FORMAT_AMRNB then 0 else bitfield m)"

text \<open>
  \<open>struct SDPFormat\<close> without \<open>new_format\<close>, a pointer that Asterisk derives from
  \<open>format\<close>; \<open>struct SDPMedia\<close>, whose \<open>num\<close> is the length of \<open>formats\<close>; and
  \<open>struct SDPContent\<close>.
\<close>

record SDPFormat =
  fmt_payload :: int
  fmt_format :: "64 word"
  fmt_control :: "string option"

record SDPMedia =
  formats :: "SDPFormat list"
  media_all :: "64 word"
  peer_media_port :: "16 word"

record SDPContent =
  sdp_audio :: "SDPMedia option"
  sdp_video :: "SDPMedia option"

definition CreateMedia :: "string \<Rightarrow> nat \<Rightarrow> SDPMedia option" where
  "CreateMedia buffer bufferLen =
     (let num = length (filter (\<lambda>c. c = SP) (take bufferLen buffer))
      in if num < 3 then None
         else Some \<lparr> formats = replicate (num - 2)
                                  \<lparr> fmt_payload = - 1, fmt_format = 0, fmt_control = None \<rparr>,
                     media_all = 0, peer_media_port = 0 \<rparr>)"

text \<open>
  \<open>strtol\<close> in base 10 with a 64-bit \<open>long\<close>: the value and the number of bytes up
  to \<open>endptr\<close>. \<open>atoi\<close> is \<open>strtol\<close> cut to an \<open>int\<close>.
\<close>

definition digits_value :: "string \<Rightarrow> int" where
  "digits_value ds = foldl (\<lambda>a c. 10 * a + (int (of_char c) - 48)) 0 ds"

definition strtol :: "string \<Rightarrow> int \<times> nat" where
  "strtol nptr =
     (let ws = takeWhile isspace nptr;
          s1 = drop (length ws) nptr;
          neg = (s1 \<noteq> [] \<and> hd s1 = CHR ''-'');
          signlen = (if s1 \<noteq> [] \<and> (hd s1 = CHR ''-'' \<or> hd s1 = CHR ''+'') then 1 else 0);
          ds = takeWhile isdigit (drop signlen s1);
          v = (if neg then - digits_value ds else digits_value ds)
      in if ds = [] then (0, 0)
         else (max (- (2 ^ 63)) (min (2 ^ 63 - 1) v), length ws + signlen + length ds))"

definition atoi :: "string \<Rightarrow> int" where
  "atoi nptr = sint (word_of_int (fst (strtol nptr)) :: 32 word)"

text \<open>
  \<open>strncasecmp(s1, s2, n) == 0\<close>: the first \<open>n\<close> bytes agree up to case, or both
  strings end together before that.
\<close>

fun strncasecmp_eq :: "string \<Rightarrow> string \<Rightarrow> nat \<Rightarrow> bool" where
  "strncasecmp_eq s1 s2 0 = True"
| "strncasecmp_eq [] [] (Suc n) = True"
| "strncasecmp_eq [] (y # ys) (Suc n) = False"
| "strncasecmp_eq (x # xs) [] (Suc n) = False"
| "strncasecmp_eq (x # xs) (y # ys) (Suc n) = (tolower x = tolower y \<and> strncasecmp_eq xs ys n)"

text \<open>
  The loop over \<open>mimeTypes\<close> for one \<open>a=rtpmap:\<close> line. \<open>ini\<close> is the buffer at the
  codec name and \<open>cnt\<close> is \<open>end - ini\<close>. The loop has no \<open>break\<close> and does not
  compare \<open>n\<close> with \<open>media->num\<close>: every entry that matches fills slot \<open>n\<close> and
  advances \<open>n\<close>, and a match with \<open>n\<close> at \<open>media->num\<close> writes past the array.
\<close>

fun match_mimeTypes ::
  "(ast_format_macro \<Rightarrow> 64 word) \<Rightarrow> (ast_format_macro \<times> string) list \<Rightarrow> string \<Rightarrow> nat \<Rightarrow> int
     \<Rightarrow> SDPMedia \<Rightarrow> nat \<Rightarrow> fault + (SDPMedia \<times> nat)" where
  "match_mimeTypes bitfield [] ini cnt pl media n = Inr (media, n)"
| "match_mimeTypes bitfield (entry # table) ini cnt pl media n =
     (if strncasecmp_eq ini (snd entry) cnt
      then (if n < length (formats media)
            then match_mimeTypes bitfield table ini cnt pl
                   (media\<lparr> formats := (formats media)
                              [n := (formats media ! n)
                                 \<lparr> fmt_format := format_value bitfield (fst entry),
                                   fmt_payload := pl \<rparr>],
                           media_all := media_all media OR format_value bitfield (fst entry) \<rparr>)
                   (Suc n)
            else Inl BufferOverrun)
      else match_mimeTypes bitfield table ini cnt pl media n)"

text \<open>
  The branch for \<open>a=rtpmap:\<close>, with a current media: \<open>i\<close> is the buffer at the start
  of the line and \<open>len\<close> is \<open>j - i\<close>.
\<close>

definition rtpmap_line ::
  "(ast_format_macro \<Rightarrow> 64 word) \<Rightarrow> string \<Rightarrow> nat \<Rightarrow> SDPMedia \<Rightarrow> nat \<Rightarrow> fault + (SDPMedia \<times> nat)" where
  "rtpmap_line bitfield i len media n =
     (if n = length (formats media) then Inr (media, n)
      else (let ini = Suc (length (takeWhile (\<lambda>c. c \<noteq> SP) (take len i)))
            in if ini \<ge> len then Inr (media, n)
               else (let cnt = length (takeWhile (\<lambda>c. c \<noteq> CHR ''/'') (drop ini (take len i)))
                     in match_mimeTypes bitfield mimeTypes (drop ini i) cnt (atoi (drop 9 i))
                          media n)))"

text \<open>
  The branch for \<open>a=control:\<close>, with a current media. When slot \<open>n - 1\<close> already has
  a control string the source frees the slot itself and then writes to it.
\<close>

definition control_line :: "string \<Rightarrow> nat \<Rightarrow> SDPMedia \<Rightarrow> nat \<Rightarrow> fault + SDPMedia" where
  "control_line i len media n =
     (if n > length (formats media) then Inr media
      else (let ctl = take (len - 10) (drop 10 i)
            in if n = 0
               then Inr (media\<lparr> formats := map (\<lambda>f. f\<lparr> fmt_control := Some ctl \<rparr>) (formats media) \<rparr>)
               else if fmt_control (formats media ! (n - 1)) \<noteq> None then Inl UseAfterFree
               else Inr (media\<lparr> formats := (formats media)
                                  [n - 1 := (formats media ! (n - 1))\<lparr> fmt_control := Some ctl \<rparr>] \<rparr>)))"

text \<open>
  The state of the loop of \<open>CreateSDP\<close>: the content built so far, which of its two
  media the pointer \<open>media\<close> refers to (\<open>None\<close> for the null pointer), and \<open>n\<close>.
\<close>

datatype media_kind = Audio | Video

record sdp_state =
  content :: SDPContent
  cur_media :: "media_kind option"
  cur_n :: nat

definition get_media :: "sdp_state \<Rightarrow> SDPMedia option" where
  "get_media st =
     (case cur_media st of
        None \<Rightarrow> None
      | Some Audio \<Rightarrow> sdp_audio (content st)
      | Some Video \<Rightarrow> sdp_video (content st))"

definition put_media :: "sdp_state \<Rightarrow> SDPMedia \<Rightarrow> sdp_state" where
  "put_media st media =
     (case cur_media st of
        None \<Rightarrow> st
      | Some Audio \<Rightarrow> st\<lparr> content := (content st)\<lparr> sdp_audio := Some media \<rparr> \<rparr>
      | Some Video \<Rightarrow> st\<lparr> content := (content st)\<lparr> sdp_video := Some media \<rparr> \<rparr>)"

text \<open>
  The peer's port of an \<open>m=audio\<close> line, read when SIP is enabled. The source
  dereferences \<open>sdp->audio\<close> without looking whether \<open>CreateMedia\<close> returned null.
\<close>

definition audio_peer_port :: "string \<Rightarrow> SDPMedia option \<Rightarrow> fault + SDPMedia" where
  "audio_peer_port i audio =
     (case audio of
        None \<Rightarrow> Inl NullDereference
      | Some a \<Rightarrow>
          (let port = (word_of_int (fst (strtol (drop 8 i))) :: 16 word);
               k = 8 + snd (strtol (drop 8 i))
           in if port = 0 then Inr (a\<lparr> peer_media_port := 0 \<rparr>)
              else if starts_with (drop (k - 1) i) ''RTP'' then Inr (a\<lparr> peer_media_port := 0 \<rparr>)
              else Inr (a\<lparr> peer_media_port := port \<rparr>)))"

text \<open>One line of the description: \<open>i\<close> is the buffer at its start, \<open>len\<close> its length.\<close>

definition sdp_line ::
  "(ast_format_macro \<Rightarrow> 64 word) \<Rightarrow> bool \<Rightarrow> string \<Rightarrow> nat \<Rightarrow> sdp_state \<Rightarrow> fault + sdp_state" where
  "sdp_line bitfield sip_enable i len st =
     (if starts_with i ''m=''
      then (if starts_with (drop 2 i) ''video''
            then Inr \<lparr> content = (content st)\<lparr> sdp_video := CreateMedia i len \<rparr>,
                       cur_media = Some Video, cur_n = 0 \<rparr>
            else if starts_with (drop 2 i) ''audio''
            then (if sip_enable
                  then and_then (audio_peer_port i (CreateMedia i len)) (\<lambda>a.
                         Inr \<lparr> content = (content st)\<lparr> sdp_audio := Some a \<rparr>,
                               cur_media = Some Audio, cur_n = 0 \<rparr>)
                  else Inr \<lparr> content = (content st)\<lparr> sdp_audio := CreateMedia i len \<rparr>,
                             cur_media = Some Audio, cur_n = 0 \<rparr>)
            else Inr (st\<lparr> cur_media := None, cur_n := 0 \<rparr>))
      else if starts_with i ''a=rtpmap:''
      then (case get_media st of
              None \<Rightarrow> Inr st
            | Some media \<Rightarrow>
                and_then (rtpmap_line bitfield i len media (cur_n st)) (\<lambda>r.
                  Inr ((put_media st (fst r))\<lparr> cur_n := snd r \<rparr>)))
      else if starts_with i ''a=control:''
      then (case get_media st of
              None \<Rightarrow> Inr st
            | Some media \<Rightarrow>
                and_then (control_line i len media (cur_n st)) (\<lambda>m. Inr (put_media st m)))
      else Inr st)"

lemma strstr_Some_nonempty: "strstr s [c] = Some k \<Longrightarrow> s \<noteq> []"
  by (cases s) auto

text \<open>
  The loop of \<open>CreateSDP\<close> over the lines; a line of at most one byte is skipped, and
  a CR before the LF is not part of the line.
\<close>

function CreateSDP_loop ::
  "(ast_format_macro \<Rightarrow> 64 word) \<Rightarrow> bool \<Rightarrow> string \<Rightarrow> sdp_state \<Rightarrow> fault + sdp_state" where
  "CreateSDP_loop bitfield sip_enable i st =
     (case strstr i [LF] of
        None \<Rightarrow> Inr st
      | Some k \<Rightarrow>
          (case (if k \<le> 1 then Inr st
                 else sdp_line bitfield sip_enable i (if i ! (k - 1) = CR then k - 1 else k) st) of
             Inl e \<Rightarrow> Inl e
           | Inr st' \<Rightarrow> CreateSDP_loop bitfield sip_enable (drop (Suc k) i) st'))"
  by pat_completeness auto
termination
  by (relation "measure (\<lambda>(bitfield, sip_enable, i, st). length i)")
     (auto dest: strstr_Some_nonempty)

declare CreateSDP_loop.simps [simp del]

definition CreateSDP ::
  "(ast_format_macro \<Rightarrow> 64 word) \<Rightarrow> string \<Rightarrow> bool \<Rightarrow> fault + SDPContent" where
  "CreateSDP bitfield buffer sip_enable =
     and_then (CreateSDP_loop bitfield sip_enable buffer
                 \<lparr> content = \<lparr> sdp_audio = None, sdp_video = None \<rparr>,
                   cur_media = None, cur_n = 0 \<rparr>)
       (\<lambda>st. Inr (content st))"

subsection \<open>The answer to an INVITE\<close>

text \<open>
  In \<open>case 200\<close> of the state \<open>SIP_STATE_INVITE\<close>, the part from the call of
  \<open>CreateSDP\<close> on. \<open>audioFormat\<close> is the \<open>int\<close> that holds the offered format.
  \<open>connected_port\<close> is the port \<open>SipSpeakerSetAudioTransport\<close> was called with.
\<close>

record sip_tx_state =
  enable_sip_tx :: int
  sip_prev_samples :: int
  connected_port :: "16 word option"
  logged :: "string list"

definition sip_invite_200_answer ::
  "(ast_format_macro \<Rightarrow> 64 word) \<Rightarrow> string \<Rightarrow> 32 word \<Rightarrow> sip_tx_state \<Rightarrow> fault + sip_tx_state" where
  "sip_invite_200_answer bitfield buffer audioFormat st =
     and_then (CreateSDP bitfield buffer True) (\<lambda>sip_sdp.
       case sdp_audio sip_sdp of
         None \<Rightarrow> Inl NullDereference
       | Some audio \<Rightarrow>
           if length (formats audio) \<noteq> 1
           then Inr (st\<lparr> logged := logged st @ [''SIP: Peer Answers with more than 1 codec''] \<rparr>)
           else (let st1 = (if fmt_format (formats audio ! 0) \<noteq> scast audioFormat
                            then st\<lparr> logged := logged st
                                        @ [''SIP: Peer Answers with mismatched codec''] \<rparr>
                            else st)
                 in Inr (st1\<lparr> enable_sip_tx := 1, sip_prev_samples := 0,
                               connected_port := Some (peer_media_port audio) \<rparr>)))"









subsection \<open>The digest response as the specification words it\<close>

text \<open>
  A string of 32 lower-case hexadecimal digits, and the response
  \<open>MD5(MD5(username:realm:password) : nonce : MD5(method:uri))\<close>.
\<close>

definition hex32 :: "string \<Rightarrow> bool" where
  "hex32 str \<longleftrightarrow> length str = 32 \<and> list_all (\<lambda>c. c \<in> set ''0123456789abcdef'') str"

definition rfc2069_response ::
  "(string \<Rightarrow> string) \<Rightarrow> string \<Rightarrow> string \<Rightarrow> string \<Rightarrow> string \<Rightarrow> string \<Rightarrow> string \<Rightarrow> string" where
  "rfc2069_response md5 username passwd realm nonce uri method =
     md5 (md5 (username @ '':'' @ realm @ '':'' @ passwd) @ '':'' @ nonce
            @ '':'' @ md5 (method @ '':'' @ uri))"

subsection \<open>Header blocks as text\<close>

text \<open>
  A header line on the wire is a first physical line and its continuation lines, each of
  which begins with a space or a tab; \<open>raw_span\<close> joins them with the CR LF of each
  fold, and \<open>wire\<close> writes a list of header lines, each ended by CR LF.
  \<open>header_of\<close> is the pair that \<open>parse_headers\<close> stores for a raw span, and
  \<open>no_fold\<close> says that a text does not begin like a continuation line.
\<close>

fun raw_span :: "string \<Rightarrow> string list \<Rightarrow> string" where
  "raw_span s [] = s"
| "raw_span s (c # cs) = s @ CRLF @ raw_span c cs"

definition header_line :: "string \<times> string list \<Rightarrow> bool" where
  "header_line l \<longleftrightarrow>
     fst l \<noteq> [] \<and> hd (fst l) \<noteq> SP \<and> hd (fst l) \<noteq> HT \<and> LF \<notin> set (fst l)
     \<and> (\<forall>c \<in> set (snd l). c \<noteq> [] \<and> (hd c = SP \<or> hd c = HT) \<and> LF \<notin> set c)"

definition raw_line :: "string \<times> string list \<Rightarrow> string" where
  "raw_line l = raw_span (fst l) (snd l)"

definition header_of :: "string \<Rightarrow> HeaderStruct" where
  "header_of raw =
     \<lparr> field_name = trim_whitespace (takeWhile (\<lambda>c. c \<noteq> CHR '':'') raw),
       field_value = trim_whitespace (tl (dropWhile (\<lambda>c. c \<noteq> CHR '':'') raw)) \<rparr>"

definition wire :: "(string \<times> string list) list \<Rightarrow> string" where
  "wire ls = concat (map (\<lambda>l. raw_line l @ CRLF) ls)"

definition no_fold :: "string \<Rightarrow> bool" where
  "no_fold r \<longleftrightarrow> r = [] \<or> (hd r \<noteq> SP \<and> hd r \<noteq> HT)"

subsection \<open>Challenge lists as text\<close>
















subsection \<open>Concrete inputs\<close>

text \<open>
  The values that \<open>format_compatibility.h\<close> of Asterisk 17 gives the format macros,
  used where a property is run on a concrete description.
\<close>

fun asterisk_bitfield :: "ast_format_macro \<Rightarrow> 64 word" where
  "asterisk_bitfield AST_FORMAT_G723 = push_bit 0 1"
| "asterisk_bitfield AST_FORMAT_GSM = push_bit 1 1"
| "asterisk_bitfield AST_FORMAT_ULAW = push_bit 2 1"
| "asterisk_bitfield AST_FORMAT_ALAW = push_bit 3 1"
| "asterisk_bitfield AST_FORMAT_G726_AAL2 = push_bit 4 1"
| "asterisk_bitfield AST_FORMAT_ADPCM = push_bit 5 1"
| "asterisk_bitfield AST_FORMAT_SLIN = push_bit 6 1"
| "asterisk_bitfield AST_FORMAT_LPC10 = push_bit 7 1"
| "asterisk_bitfield AST_FORMAT_G729 = push_bit 8 1"
| "asterisk_bitfield AST_FORMAT_SPEEX = push_bit 9 1"
| "asterisk_bitfield AST_FORMAT_ILBC = push_bit 10 1"
| "asterisk_bitfield AST_FORMAT_G726 = push_bit 11 1"
| "asterisk_bitfield AST_FORMAT_G722 = push_bit 12 1"
| "asterisk_bitfield AST_FORMAT_AMRNB = 0"
| "asterisk_bitfield AST_FORMAT_JPEG = push_bit 16 1"
| "asterisk_bitfield AST_FORMAT_PNG = push_bit 17 1"
| "asterisk_bitfield AST_FORMAT_H261 = push_bit 18 1"
| "asterisk_bitfield AST_FORMAT_H263 = push_bit 19 1"
| "asterisk_bitfield AST_FORMAT_H263P = push_bit 20 1"
| "asterisk_bitfield AST_FORMAT_H264 = push_bit 21 1"
| "asterisk_bitfield AST_FORMAT_MP4 = push_bit 22 1"

text \<open>A 401 response whose one header value offers Basic first and Digest second.\<close>

definition challenge_basic_then_digest :: string where
  "challenge_basic_then_digest =
     ''RTSP/1.0 401 Unauthorized'' @ CRLF @
     ''CSeq: 1'' @ CRLF @
     ''WWW-Authenticate: Basic realm='' @ quoted ''x'' @ '', Digest realm='' @ quoted ''y''
        @ '', nonce='' @ quoted ''z'' @ CRLF @ CRLF"

text \<open>An answer with the one audio format PCMA, payload type 8, on port 5004.\<close>

definition answer_pcma :: string where
  "answer_pcma = ''v=0'' @ CRLF @ ''m=audio 5004 RTP/AVP 8'' @ CRLF
                   @ ''a=rtpmap:8 PCMA/8000'' @ CRLF"

text \<open>
  A stand-in for \<open>ast_md5_hash\<close> that passes the self-test of \<open>auth_digest\<close>, and
  a player before any challenge.
\<close>

definition md5_stub :: "string \<Rightarrow> string" where
  "md5_stub str =
     (if str = ''abcdefghijklmnopqrstuvwxyz'' then ''c3fcd3d76192e4007dfb496cca67e13b''
      else ''d41d8cd98f00b204e9800998ecf8427e'')"

definition player0 :: RtspPlayer where
  "player0 = \<lparr> authorization = None, hostport = ''192.168.0.34:554'',
               player_ip = ''192.168.0.34'', in_a_dialog = False, cseqm_INVITE = 2 \<rparr>"





text \<open>
  A video section that declares the payload types 96 and 97 and maps 96 to a codec
  outside the table; the same with H263 for payload type 34; an audio section with two
  empty slots, and two \<open>a=rtpmap\<close> lines for it.
\<close>

definition sdp_vp8_h264 :: string where
  "sdp_vp8_h264 = ''v=0'' @ CRLF @ ''m=video 0 RTP/AVP 96 97'' @ CRLF
                    @ ''a=rtpmap:96 VP8/90000'' @ CRLF @ ''a=rtpmap:97 H264/90000'' @ CRLF"

definition empty_format :: SDPFormat where
  "empty_format = \<lparr> fmt_payload = - 1, fmt_format = 0, fmt_control = None \<rparr>"

definition audio_two_slots :: sdp_state where
  "audio_two_slots =
     \<lparr> content = \<lparr> sdp_audio = Some \<lparr> formats = [empty_format, empty_format], media_all = 0,
                                        peer_media_port = 0 \<rparr>,
                   sdp_video = None \<rparr>,
       cur_media = Some Audio, cur_n = 0 \<rparr>"

definition rtpmap_pcmu :: string where
  "rtpmap_pcmu = ''a=rtpmap:0 PCMU/8000'' @ CRLF @ ''a=rtpmap:8 PCMA/8000'' @ CRLF"

definition sdp_h263 :: string where
  "sdp_h263 = ''v=0'' @ CRLF @ ''m=video 0 RTP/AVP 34 96'' @ CRLF
                @ ''a=rtpmap:34 H263/90000'' @ CRLF"

text \<open>A header folded over two lines and the same header on one line.\<close>

definition folded_message :: string where
  "folded_message = ''Subject: a'' @ CRLF @ '' b'' @ CRLF @ CRLF"

definition unfolded_message :: string where
  "unfolded_message = ''Subject: a b'' @ CRLF @ CRLF"




text \<open>
  A header block with a folded header between two others.
\<close>

definition folded_block :: string where
  "folded_block = ''CSeq: 1'' @ CRLF @ ''Subject: a'' @ CRLF @ '' b'' @ CRLF
                    @ ''Content-Length: 0'' @ CRLF @ CRLF"







definition challenge_escaped_backslash :: string where
  "challenge_escaped_backslash =
     ''RTSP/1.0 401 Unauthorized'' @ CRLF @
     ''CSeq: 2'' @ CRLF @
     ''WWW-Authenticate: Digest realm='' @ quoted (''a'' @ [BACKSLASH, BACKSLASH])
        @ '', Basic realm='' @ quoted ''cam'' @ CRLF @ CRLF"





section \<open>Properties\<close>

subsection \<open>RTCP receiver report\<close>

lemma MediaStatsRR_total:
  "\<exists>r. MediaStatsRR le rnd elapsed stats = Inr r"
  by (simp add: MediaStatsRR_def udiv32_def)

text \<open>
  C9. Every receiver report built by \<open>MediaStatsRR\<close> has version 2, padding 0, report
  count 1, packet type 201 and length 7 (in network byte order), and its jitter field is
  the fixed value \<open>0xFF\<close>; the function always returns a packet, so it never divides by
  zero; and when \<open>maxSN\<close> equals \<open>minSN\<close> the fraction-lost field is \<open>0xFF\<close>.
\<close>

theorem MediaStatsRR_header_and_sentinel:
  "\<exists>r. MediaStatsRR le rnd elapsed stats = Inr r
       \<and> hdr_version (common r) = 2 \<and> hdr_p (common r) = 0
       \<and> hdr_count (common r) = 1 \<and> hdr_pt (common r) = 201
       \<and> hdr_length (common r) = htons le 7
       \<and> rr_jitter (r_rr_rr0 r) = htonl le 0xFF
       \<and> (maxSN stats = minSN stats \<longrightarrow> rr_fraction (r_rr_rr0 r) = 0xFF)"
  by (simp add: MediaStatsRR_def udiv32_def)

theorem MediaStatsRR_header_and_sentinel_witness:
  "\<exists>r. MediaStatsRR True 7 1000
          \<lparr>count = 1, minSN = 4711, maxSN = 4711, lastTS = 160, ssrc = 99, time = 0\<rparr> = Inr r
       \<and> hdr_version (common r) = 2 \<and> hdr_p (common r) = 0
       \<and> hdr_count (common r) = 1 \<and> hdr_pt (common r) = 201
       \<and> hdr_length (common r) = htons True 7
       \<and> rr_jitter (r_rr_rr0 r) = htonl True 0xFF
       \<and> rr_fraction (r_rr_rr0 r) = 0xFF"
  using MediaStatsRR_header_and_sentinel
    [of True 7 1000 "\<lparr>count = 1, minSN = 4711, maxSN = 4711, lastTS = 160, ssrc = 99, time = 0\<rparr>"]
  by simp

subsection \<open>Port pairing\<close>

lemma GetUdpPorts_loop_exit:
  assumes "GetUdpPorts_loop os k s = Some s'"
  shows "port_p s' mod 2 = 0 \<and> port_q s' = port_p s' + 1"
proof (rule GetUdpPorts_loop.raw_induct
         [where P = "\<lambda>os k s s'. port_p s' mod 2 = 0 \<and> port_q s' = port_p s' + 1",
          OF _ assms])
  fix f :: "(nat \<Rightarrow> int \<Rightarrow> int \<times> int) \<Rightarrow> nat \<Rightarrow> udp_ports \<Rightarrow> udp_ports option"
    and sys :: "nat \<Rightarrow> int \<Rightarrow> int \<times> int" and n :: nat and t t' :: udp_ports
  assume IH: "\<And>os k s s'. f os k s = Some s'
                \<Longrightarrow> port_p s' mod 2 = 0 \<and> port_q s' = port_p s' + 1"
    and step: "(if port_p t mod 2 \<noteq> 0 \<or> port_p t + 1 \<noteq> port_q t
      then (let p' = port_q t;
                req = (if p' > 0 then (p' + 1) mod 65536 else 0);
                (b', q') = sys n req
            in f sys (Suc n)
                 \<lparr> sock_a = sock_b t, sock_b = b', port_p = p', port_q = q' \<rparr>)
      else Some t) = Some t'"
  show "port_p t' mod 2 = 0 \<and> port_q t' = port_p t' + 1"
  proof (cases "port_p t mod 2 \<noteq> 0 \<or> port_p t + 1 \<noteq> port_q t")
    case True
    with step IH show ?thesis
      by (auto simp: Let_def split: prod.splits)
  next
    case False
    with step show ?thesis by auto
  qed
qed

text \<open>
  C10. Whenever \<open>GetUdpPorts\<close> returns a port pair, the RTP port is even and the RTCP
  port is the RTP port plus one, however many rounds of the retry loop ran.
\<close>

theorem GetUdpPorts_pairing:
  "GetUdpPorts os = Some s \<Longrightarrow> even (port_p s) \<and> port_q s = port_p s + 1"
  by (auto simp: GetUdpPorts_def Let_def split: prod.splits dest: GetUdpPorts_loop_exit)

theorem GetUdpPorts_pairing_witness:
  "GetUdpPorts (os_of_list [40001, 40005, 40006, 40007])
     = Some \<lparr>sock_a = 5, sock_b = 6, port_p = 40006, port_q = 40007\<rparr>
   \<and> even (40006 :: int) \<and> (40007 :: int) = 40006 + 1"
proof -
  have run: "GetUdpPorts (os_of_list [40001, 40005, 40006, 40007])
     = Some \<lparr>sock_a = 5, sock_b = 6, port_p = 40006, port_q = 40007\<rparr>"
    by (simp add: GetUdpPorts_def os_of_list_def GetUdpPorts_loop.simps)
  from GetUdpPorts_pairing [OF run] run show ?thesis by simp
qed

subsection \<open>Parameters returned for a matched scheme\<close>

text \<open>
  C1. The scheme query is to return the parameters of the matched challenge and not those
  of a challenge after it. \<open>CheckAuthScheme\<close> does not stop at the match:
  \<open>return_code\<close> stays 0, so the parameters of every later challenge are copied over
  those of the match. For a header value that offers Basic with realm \<open>x\<close> and then
  Digest with realm \<open>y\<close> and nonce \<open>z\<close>, the query for Basic succeeds and hands
  back the two parameters of Digest.
\<close>

theorem CheckAuthScheme_Basic_gets_Digest_params:
  "CheckAuthScheme challenge_basic_then_digest ''Basic''
     = Inr \<lparr> return_code = 0,
             auth_params = [Some (''realm'', ''y''), Some (''nonce'', ''z'')],
             auth_paramcount = Some 2 \<rparr>"
  by code_simp

lemma GetAuthSchemeBasic_gets_Digest_realm:
  "GetAuthSchemeBasic challenge_basic_then_digest = Inr (0, \<lparr> basic_rx_realm = ''y'' \<rparr>)"
  by code_simp

subsection \<open>The answer to an INVITE\<close>




text \<open>
  The test for a differing format guards the log call alone; the statements that
  enable transmission follow it in the same branch. With ULAW (value 4) offered and
  PCMA answered the mismatch is logged and \<open>enable_sip_tx\<close> becomes 1.
\<close>

lemma sip_invite_200_answer_mismatch_enables_tx:
  "sip_invite_200_answer asterisk_bitfield answer_pcma 4
      \<lparr> enable_sip_tx = 0, sip_prev_samples = 7, connected_port = None, logged = [] \<rparr>
     = Inr \<lparr> enable_sip_tx = 1, sip_prev_samples = 0, connected_port = Some 5004,
             logged = [''SIP: Peer Answers with mismatched codec''] \<rparr>"
  by code_simp

subsection \<open>The digest response\<close>

lemma auth_digest_value:
  assumes hex: "\<forall>str. hex32 (md5 str)"
    and selftest: "md5 ''abcdefghijklmnopqrstuvwxyz'' = ''c3fcd3d76192e4007dfb496cca67e13b''"
    and A1: "length username + length realm + length passwd + 2 < 256"
    and A2: "length method + length uri + 1 < 256"
    and KD: "length nonce + 66 < 513"
  shows "auth_digest md5 username passwd realm nonce uri method
           = Inr (0, Some (rfc2069_response md5 username passwd realm nonce uri method))"
proof -
  have len: "\<And>str. length (md5 str) = 32"
    using hex by (simp add: hex32_def)
  show ?thesis
    using A1 A2 KD
    by (simp add: auth_digest_def and_then_def store_string_def len selftest [symmetric]
        rfc2069_response_def)
qed

text \<open>
  C3. Provided the MD5 self-test passes (and the formatted strings fit the fixed buffers
  of \<open>auth_digest\<close>), \<open>auth_digest\<close> returns 0 and writes the 32-digit string
  \<open>MD5(MD5(username:realm:password) : nonce : MD5(method:uri))\<close>. The result is a
  function of the six arguments alone. The values \<open>nc\<close>, \<open>cnonce\<close> and \<open>qop\<close>
  of \<open>RtspPlayerDigestAuthorization\<close> do not reach the hash: whatever they are, the
  \<open>response\<close> of the header is that same string, and they only follow it as text.
\<close>

theorem auth_digest_rfc2069:
  assumes hex: "\<forall>str. hex32 (md5 str)"
    and selftest: "md5 ''abcdefghijklmnopqrstuvwxyz'' = ''c3fcd3d76192e4007dfb496cca67e13b''"
    and A1: "length username + length realm + length passwd + 2 < 256"
    and A2: "length method + length uri + 1 < 256"
    and KD: "length nonce + 66 < 513"
  shows "auth_digest md5 username passwd realm nonce uri method
           = Inr (0, Some (rfc2069_response md5 username passwd realm nonce uri method))
         \<and> hex32 (rfc2069_response md5 username passwd realm nonce uri method)
         \<and> (\<forall>player nc cnonce qop isSIP rc player'.
               RtspPlayerDigestAuthorization md5 player username passwd realm nonce
                   nc cnonce qop uri realm method isSIP = Inr (rc, player')
               \<longrightarrow> (\<exists>rest. authorization player'
                      = Some (''Authorization: Digest username='' @ quoted username
                              @ '', realm='' @ quoted realm @ '', nonce='' @ quoted nonce
                              @ '', uri='' @ quoted uri @ '', response=''
                              @ quoted (rfc2069_response md5 username passwd realm nonce uri method)
                              @ '', algorithm=MD5'' @ rest)))"
proof (intro conjI allI impI)
  show v: "auth_digest md5 username passwd realm nonce uri method
           = Inr (0, Some (rfc2069_response md5 username passwd realm nonce uri method))"
    by (rule auth_digest_value [OF assms])
  show "hex32 (rfc2069_response md5 username passwd realm nonce uri method)"
    using hex by (simp add: rfc2069_response_def)
  fix player nc cnonce qop isSIP rc player'
  assume "RtspPlayerDigestAuthorization md5 player username passwd realm nonce
            nc cnonce qop uri realm method isSIP = Inr (rc, player')"
  then show "\<exists>rest. authorization player'
                      = Some (''Authorization: Digest username='' @ quoted username
                              @ '', realm='' @ quoted realm @ '', nonce='' @ quoted nonce
                              @ '', uri='' @ quoted uri @ '', response=''
                              @ quoted (rfc2069_response md5 username passwd realm nonce uri method)
                              @ '', algorithm=MD5'' @ rest)"
    by (auto simp: RtspPlayerDigestAuthorization_def v and_then_def store_string_def
             split: if_splits)
qed

lemma hex32_md5_stub: "\<forall>str. hex32 (md5_stub str)"
  by (simp add: md5_stub_def hex32_def)

theorem auth_digest_rfc2069_witness:
  "auth_digest md5_stub ''u'' ''p'' ''r'' ''n'' ''rtsp://h/x'' ''DESCRIBE''
     = Inr (0, Some ''d41d8cd98f00b204e9800998ecf8427e'')
   \<and> hex32 ''d41d8cd98f00b204e9800998ecf8427e''
   \<and> RtspPlayerDigestAuthorization md5_stub player0 ''u'' ''p'' ''r'' ''n''
         (Some ''00000001'') (Some ''0a4f113b'') (Some ''auth'') ''rtsp://h/x'' ''r'' ''DESCRIBE'' False
       = Inr (1, player0\<lparr> authorization :=
           Some (''Authorization: Digest username='' @ quoted ''u''
                   @ '', realm='' @ quoted ''r'' @ '', nonce='' @ quoted ''n''
                   @ '', uri='' @ quoted ''rtsp://h/x'' @ '', response=''
                   @ quoted ''d41d8cd98f00b204e9800998ecf8427e''
                   @ '', algorithm=MD5, cnonce='' @ quoted ''0a4f113b''
                   @ '', qop='' @ quoted ''auth'' @ '', nc='' @ quoted ''00000001'') \<rparr>)"
proof -
  have r: "rfc2069_response md5_stub ''u'' ''p'' ''r'' ''n'' ''rtsp://h/x'' ''DESCRIBE''
             = ''d41d8cd98f00b204e9800998ecf8427e''"
    by (simp add: rfc2069_response_def md5_stub_def)
  have run: "RtspPlayerDigestAuthorization md5_stub player0 ''u'' ''p'' ''r'' ''n''
         (Some ''00000001'') (Some ''0a4f113b'') (Some ''auth'') ''rtsp://h/x'' ''r'' ''DESCRIBE'' False
       = Inr (1, player0\<lparr> authorization :=
           Some (''Authorization: Digest username='' @ quoted ''u''
                   @ '', realm='' @ quoted ''r'' @ '', nonce='' @ quoted ''n''
                   @ '', uri='' @ quoted ''rtsp://h/x'' @ '', response=''
                   @ quoted ''d41d8cd98f00b204e9800998ecf8427e''
                   @ '', algorithm=MD5, cnonce='' @ quoted ''0a4f113b''
                   @ '', qop='' @ quoted ''auth'' @ '', nc='' @ quoted ''00000001'') \<rparr>)"
    by code_simp
  from auth_digest_rfc2069 [of md5_stub "''u''" "''r''" "''p''" "''DESCRIBE''" "''rtsp://h/x''" "''n''"]
    hex32_md5_stub
  have "auth_digest md5_stub ''u'' ''p'' ''r'' ''n'' ''rtsp://h/x'' ''DESCRIBE''
     = Inr (0, Some ''d41d8cd98f00b204e9800998ecf8427e'')
   \<and> hex32 ''d41d8cd98f00b204e9800998ecf8427e''"
    by (simp add: md5_stub_def r)
  with run show ?thesis by blast
qed

subsection \<open>Payload map of a session description\<close>

text \<open>
  C8 as stated does not hold. A name that is not in the table attaches nothing and leaves
  the slot free for the next line: with the payload types 96 and 97 declared and 96
  mapped to VP8, the first slot receives H264 with payload 97 and the second stays empty.
\<close>

theorem rtpmap_unknown_name_counterexample:
  "CreateSDP asterisk_bitfield sdp_vp8_h264 False
     = Inr \<lparr> sdp_audio = None,
             sdp_video = Some \<lparr> formats = [\<lparr> fmt_payload = 97, fmt_format = 2097152,
                                               fmt_control = None \<rparr>,
                                             \<lparr> fmt_payload = - 1, fmt_format = 0,
                                               fmt_control = None \<rparr>],
                                  media_all = 2097152, peer_media_port = 0 \<rparr> \<rparr>"
  by code_simp

text \<open>
  The loop over the table has no \<open>break\<close>: H263 also matches the entry H263-2000
  on its first four bytes, and one line fills two slots.
\<close>

lemma rtpmap_H263_fills_two_slots:
  "CreateSDP asterisk_bitfield sdp_h263 False
     = Inr \<lparr> sdp_audio = None,
             sdp_video = Some \<lparr> formats = [\<lparr> fmt_payload = 34, fmt_format = 524288,
                                               fmt_control = None \<rparr>,
                                             \<lparr> fmt_payload = 34, fmt_format = 1048576,
                                               fmt_control = None \<rparr>],
                                  media_all = 1572864, peer_media_port = 0 \<rparr> \<rparr>"
  by code_simp

lemma starts_with_iff: "starts_with s t \<longleftrightarrow> take (length t) s = t"
  by (induction s t rule: starts_with.induct) auto

lemma match_mimeTypes_none:
  "filter (\<lambda>e. strncasecmp_eq ini (snd e) cnt) table = []
     \<Longrightarrow> match_mimeTypes bitfield table ini cnt pl media n = Inr (media, n)"
  by (induction table) (auto split: if_splits)

lemma match_mimeTypes_single:
  "filter (\<lambda>e. strncasecmp_eq ini (snd e) cnt) table = [entry]
     \<Longrightarrow> n < length (formats media)
     \<Longrightarrow> match_mimeTypes bitfield table ini cnt pl media n
           = Inr (media\<lparr> formats := (formats media)
                            [n := (formats media ! n)
                               \<lparr> fmt_format := format_value bitfield (fst entry),
                                 fmt_payload := pl \<rparr>],
                         media_all := media_all media OR format_value bitfield (fst entry) \<rparr>,
                  Suc n)"
proof (induction table)
  case Nil
  then show ?case by simp
next
  case (Cons e table)
  show ?case
  proof (cases "strncasecmp_eq ini (snd e) cnt")
    case True
    with Cons.prems have "e = entry" and
      "filter (\<lambda>e. strncasecmp_eq ini (snd e) cnt) table = []"
      by auto
    with True Cons.prems show ?thesis
      by (simp add: match_mimeTypes_none)
  next
    case False
    with Cons show ?thesis by simp
  qed
qed

lemma put_get_media: "get_media st = Some media \<Longrightarrow> put_media st media = st"
  by (auto simp: get_media_def put_media_def split: option.splits media_kind.splits)

text \<open>
  C8, amended. For an \<open>a=rtpmap:\<close> line inside a media section that still has an
  unfilled slot, whose name is matched by exactly one entry of \<open>mimeTypes\<close> (compared
  without case over the length of the name), the parser writes that entry's codec
  identifier and the payload number of the line into exactly the next unfilled slot and
  moves on to the slot after it. A line whose name matches no entry, or that comes when
  every slot is filled, changes nothing.
\<close>

theorem rtpmap_fills_next_slot:
  assumes line: "starts_with i ''a=rtpmap:''"
    and media: "get_media st = Some media"
    and ini: "ini = Suc (length (takeWhile (\<lambda>c. c \<noteq> SP) (take len i)))"
    and cnt: "cnt = length (takeWhile (\<lambda>c. c \<noteq> CHR ''/'') (drop ini (take len i)))"
  shows "(cur_n st < length (formats media) \<and> ini < len
            \<and> filter (\<lambda>e. strncasecmp_eq (drop ini i) (snd e) cnt) mimeTypes = [(m, name)]
          \<longrightarrow> sdp_line bitfield sip_enable i len st
              = Inr ((put_media st
                       (media\<lparr> formats := (formats media)
                                  [cur_n st := (formats media ! cur_n st)
                                     \<lparr> fmt_format := format_value bitfield m,
                                       fmt_payload := atoi (drop 9 i) \<rparr>],
                               media_all := media_all media OR format_value bitfield m \<rparr>))
                     \<lparr> cur_n := Suc (cur_n st) \<rparr>))
       \<and> (filter (\<lambda>e. strncasecmp_eq (drop ini i) (snd e) cnt) mimeTypes = []
          \<longrightarrow> sdp_line bitfield sip_enable i len st = Inr st)
       \<and> (cur_n st = length (formats media)
          \<longrightarrow> sdp_line bitfield sip_enable i len st = Inr st)"
proof -
  from line obtain r where i: "i = ''a=rtpmap:'' @ r"
    by (metis append_take_drop_id starts_with_iff)
  have not_m: "\<not> starts_with i ''m=''"
    by (simp add: i)
  have step: "sdp_line bitfield sip_enable i len st
      = and_then (rtpmap_line bitfield i len media (cur_n st))
          (\<lambda>r. Inr ((put_media st (fst r))\<lparr> cur_n := snd r \<rparr>))"
    using line not_m media by (simp add: sdp_line_def)
  have same: "(put_media st media)\<lparr> cur_n := cur_n st \<rparr> = st"
    by (simp add: put_get_media [OF media])
  show ?thesis
  proof (intro conjI impI)
    assume a: "cur_n st < length (formats media) \<and> ini < len
            \<and> filter (\<lambda>e. strncasecmp_eq (drop ini i) (snd e) cnt) mimeTypes = [(m, name)]"
    then have "rtpmap_line bitfield i len media (cur_n st)
        = match_mimeTypes bitfield mimeTypes (drop ini i) cnt (atoi (drop 9 i)) media (cur_n st)"
      by (simp add: rtpmap_line_def Let_def ini [symmetric] cnt [symmetric])
    also have "\<dots> = Inr (media\<lparr> formats := (formats media)
                                  [cur_n st := (formats media ! cur_n st)
                                     \<lparr> fmt_format := format_value bitfield m,
                                       fmt_payload := atoi (drop 9 i) \<rparr>],
                               media_all := media_all media OR format_value bitfield m \<rparr>,
                     Suc (cur_n st))"
      using match_mimeTypes_single [of "drop ini i" cnt mimeTypes "(m, name)" "cur_n st" media
          bitfield "atoi (drop 9 i)"] a
      by simp
    finally show "sdp_line bitfield sip_enable i len st
              = Inr ((put_media st
                       (media\<lparr> formats := (formats media)
                                  [cur_n st := (formats media ! cur_n st)
                                     \<lparr> fmt_format := format_value bitfield m,
                                       fmt_payload := atoi (drop 9 i) \<rparr>],
                               media_all := media_all media OR format_value bitfield m \<rparr>))
                     \<lparr> cur_n := Suc (cur_n st) \<rparr>)"
      by (simp add: step and_then_def)
  next
    assume a: "filter (\<lambda>e. strncasecmp_eq (drop ini i) (snd e) cnt) mimeTypes = []"
    have "rtpmap_line bitfield i len media (cur_n st) = Inr (media, cur_n st)"
      using match_mimeTypes_none [OF a, of bitfield "atoi (drop 9 i)" media "cur_n st"]
      by (simp add: rtpmap_line_def Let_def ini [symmetric] cnt [symmetric])
    then show "sdp_line bitfield sip_enable i len st = Inr st"
      by (simp add: step and_then_def same)
  next
    assume "cur_n st = length (formats media)"
    then have "rtpmap_line bitfield i len media (cur_n st) = Inr (media, cur_n st)"
      by (simp add: rtpmap_line_def)
    then show "sdp_line bitfield sip_enable i len st = Inr st"
      by (simp add: step and_then_def same)
  qed
qed
theorem rtpmap_fills_next_slot_witness:
  "sdp_line asterisk_bitfield False rtpmap_pcmu 20 audio_two_slots
     = Inr \<lparr> content = \<lparr> sdp_audio = Some \<lparr> formats = [\<lparr> fmt_payload = 0, fmt_format = 4,
                                                            fmt_control = None \<rparr>, empty_format],
                                              media_all = 4, peer_media_port = 0 \<rparr>,
                         sdp_video = None \<rparr>,
             cur_media = Some Audio, cur_n = 1 \<rparr>"
proof -
  let ?media = "\<lparr> formats = [empty_format, empty_format], media_all = 0, peer_media_port = 0 \<rparr>"
  have line: "starts_with rtpmap_pcmu ''a=rtpmap:''" by code_simp
  have media: "get_media audio_two_slots = Some ?media" by code_simp
  have ini: "11 = Suc (length (takeWhile (\<lambda>c. c \<noteq> SP) (take 20 rtpmap_pcmu)))" by code_simp
  have cnt: "4 = length (takeWhile (\<lambda>c. c \<noteq> CHR ''/'') (drop 11 (take 20 rtpmap_pcmu)))"
    by code_simp
  have one: "filter (\<lambda>e. strncasecmp_eq (drop 11 rtpmap_pcmu) (snd e) 4) mimeTypes
               = [(AST_FORMAT_ULAW, ''PCMU'')]"
    by code_simp
  have n: "cur_n audio_two_slots < length (formats ?media) \<and> (11 :: nat) < 20"
    by code_simp
  have pl: "atoi (drop 9 rtpmap_pcmu) = 0" by code_simp
  from rtpmap_fills_next_slot [OF line media ini cnt,
      of AST_FORMAT_ULAW "''PCMU''" asterisk_bitfield False] one n
  have "sdp_line asterisk_bitfield False rtpmap_pcmu 20 audio_two_slots
          = Inr ((put_media audio_two_slots
                    (?media\<lparr> formats := (formats ?media)
                               [cur_n audio_two_slots := (formats ?media ! cur_n audio_two_slots)
                                  \<lparr> fmt_format := format_value asterisk_bitfield AST_FORMAT_ULAW,
                                    fmt_payload := atoi (drop 9 rtpmap_pcmu) \<rparr>],
                            media_all := media_all ?media
                               OR format_value asterisk_bitfield AST_FORMAT_ULAW \<rparr>))
                  \<lparr> cur_n := Suc (cur_n audio_two_slots) \<rparr>)"
    by blast
  then show ?thesis
    by (simp add: pl audio_two_slots_def put_media_def format_value_def empty_format_def)
qed

subsection \<open>Header lines\<close>

lemma length_CRLF [simp]: "length CRLF = 2"
  by (simp add: CRLF_def)

lemma strstr_CRLF:
  "LF \<notin> set l \<Longrightarrow> strstr (l @ CRLF @ r) CRLF = Some (length l)"
proof (induction l)
  case Nil
  then show ?case by (simp add: CRLF_def)
next
  case (Cons c l)
  have "\<not> starts_with ((c # l) @ CRLF @ r) CRLF"
    using Cons.prems by (cases l) (auto simp: CRLF_def CR_def LF_def)
  with Cons show ?case by (simp add: CRLF_def)
qed

lemma find_line_end_fold:
  assumes "LF \<notin> set s"
    and "\<forall>c \<in> set cs. c \<noteq> [] \<and> (hd c = SP \<or> hd c = HT) \<and> LF \<notin> set c"
    and "no_fold r"
  shows "find_line_end (pre @ raw_span s cs @ CRLF @ r) (length pre)
           = Some (length pre + length (raw_span s cs))"
  using assms
proof (induction cs arbitrary: pre s)
  case Nil
  have str: "strstr (drop (length pre) (pre @ s @ CRLF @ r)) CRLF = Some (length s)"
    using Nil.prems(1) by (simp add: strstr_CRLF)
  have stop: "\<not> (length pre + length s + 2 < length (pre @ s @ CRLF @ r)
           \<and> ((pre @ s @ CRLF @ r) ! (length pre + length s + 2) = SP
              \<or> (pre @ s @ CRLF @ r) ! (length pre + length s + 2) = HT))"
  proof (cases r)
    case Nil
    then show ?thesis by simp
  next
    case (Cons x xs)
    have "(pre @ s @ CRLF @ r) ! (length pre + length s + 2) = x"
      by (simp add: Cons CRLF_def nth_append)
    with Cons \<open>no_fold r\<close> show ?thesis by (simp add: no_fold_def)
  qed
  have "find_line_end (pre @ s @ CRLF @ r) (length pre) = Some (length pre + length s)"
    by (subst find_line_end.simps) (simp only: str option.case stop if_False)
  then show ?case by simp
next
  case (Cons c cs)
  from Cons.prems(2) obtain x xs where c: "c = x # xs" and x: "x = SP \<or> x = HT"
    by (cases c) auto
  let ?whole = "pre @ s @ CRLF @ raw_span c cs @ CRLF @ r"
  have str: "strstr (drop (length pre) ?whole) CRLF = Some (length s)"
    using Cons.prems(1) by (simp add: strstr_CRLF)
  have nth: "?whole ! (length pre + length s + 2) = x"
    by (cases cs) (simp_all add: c CRLF_def nth_append)
  have len: "length pre + length s + 2 < length ?whole"
    by (simp add: c)
  have go: "length pre + length s + 2 < length ?whole
           \<and> (?whole ! (length pre + length s + 2) = SP
              \<or> ?whole ! (length pre + length s + 2) = HT)"
    using nth len x by simp
  have step: "find_line_end ?whole (length pre) = find_line_end ?whole (length pre + length s + 2)"
    by (subst find_line_end.simps) (simp only: str option.case go if_True simp_thms)
  have "find_line_end ((pre @ s @ CRLF) @ raw_span c cs @ CRLF @ r) (length (pre @ s @ CRLF))
          = Some (length (pre @ s @ CRLF) + length (raw_span c cs))"
    by (rule Cons.IH) (use Cons.prems in auto)
  then show ?case
    using step by simp
qed

lemma find_line_end_line:
  assumes "header_line l" and "no_fold r"
  shows "find_line_end (raw_line l @ CRLF @ r) 0 = Some (length (raw_line l))"
  using find_line_end_fold [of "fst l" "snd l" r "[]"] assms
  by (simp add: header_line_def raw_line_def)

lemma raw_line_nonempty: "header_line l \<Longrightarrow> raw_line l \<noteq> []"
  by (cases "snd l") (auto simp: header_line_def raw_line_def)

lemma hd_raw_line: "header_line l \<Longrightarrow> hd (raw_line l) = hd (fst l)"
  by (cases "snd l") (auto simp: header_line_def raw_line_def)

lemma parse_headers_loop_good_line:
  assumes l: "header_line l" and r: "no_fold r"
    and colon: "CHR '':'' \<in> set (raw_line l)"
    and short: "length (raw_line l) < MAX_HEADER_LINE"
    and room: "length hl < MAX_HEADERS"
  shows "parse_headers_loop (raw_line l @ CRLF @ r) hl
           = parse_headers_loop r (hl @ [header_of (raw_line l)])"
proof -
  have ne: "raw_line l \<noteq> []" by (rule raw_line_nonempty [OF l])
  have n1: "length (takeWhile (\<lambda>c. c \<noteq> CHR '':'') (raw_line l)) < MAX_FIELD_NAME"
    using short length_takeWhile_le [of "\<lambda>c. c \<noteq> CHR '':''" "raw_line l"]
    by (simp add: MAX_HEADER_LINE_def MAX_FIELD_NAME_def)
  have n2: "length (tl (dropWhile (\<lambda>c. c \<noteq> CHR '':'') (raw_line l))) < MAX_FIELD_VALUE"
    using short length_dropWhile_le [of "\<lambda>c. c \<noteq> CHR '':''" "raw_line l"]
    by (simp add: MAX_HEADER_LINE_def MAX_FIELD_VALUE_def)
  show ?thesis
    using ne colon short room n1 n2
    by (subst parse_headers_loop.simps)
       (simp add: find_line_end_line [OF l r] strncpy_def header_of_def Let_def)
qed

lemma parse_headers_loop_bad_line:
  assumes l: "header_line l" and r: "no_fold r"
    and bad: "CHR '':'' \<notin> set (raw_line l) \<or> MAX_HEADER_LINE \<le> length (raw_line l)"
    and room: "length hl < MAX_HEADERS"
  shows "parse_headers_loop (raw_line l @ CRLF @ r) hl = Inr (- 1, hl)"
proof -
  have ne: "raw_line l \<noteq> []" by (rule raw_line_nonempty [OF l])
  show ?thesis
    using ne bad room
    by (subst parse_headers_loop.simps)
       (auto simp: find_line_end_line [OF l r])
qed

lemma no_fold_wire:
  assumes "\<forall>l \<in> set ls. header_line l" and "no_fold r"
  shows "no_fold (wire ls @ r)"
proof (cases ls)
  case Nil
  with assms show ?thesis by (simp add: wire_def)
next
  case (Cons l ls')
  with assms have l: "header_line l" by simp
  have "hd (wire ls @ r) = hd (fst l)"
    using raw_line_nonempty [OF l] hd_raw_line [OF l] by (simp add: Cons wire_def)
  with l show ?thesis by (simp add: no_fold_def header_line_def)
qed

lemma parse_headers_loop_good_lines:
  assumes "\<forall>l \<in> set ls. header_line l \<and> CHR '':'' \<in> set (raw_line l)
              \<and> length (raw_line l) < MAX_HEADER_LINE"
    and "no_fold r"
    and "length hl + length ls \<le> MAX_HEADERS"
  shows "parse_headers_loop (wire ls @ r) hl
           = parse_headers_loop r (hl @ map (\<lambda>l. header_of (raw_line l)) ls)"
  using assms
proof (induction ls arbitrary: hl)
  case Nil
  then show ?case by (simp add: wire_def)
next
  case (Cons l ls)
  have nf: "no_fold (wire ls @ r)"
    by (rule no_fold_wire) (use Cons.prems in auto)
  have "parse_headers_loop (wire (l # ls) @ r) hl
          = parse_headers_loop (raw_line l @ CRLF @ (wire ls @ r)) hl"
    by (simp add: wire_def)
  also have "\<dots> = parse_headers_loop (wire ls @ r) (hl @ [header_of (raw_line l)])"
    by (rule parse_headers_loop_good_line) (use Cons.prems nf in auto)
  also have "\<dots> = parse_headers_loop r
                     ((hl @ [header_of (raw_line l)]) @ map (\<lambda>l. header_of (raw_line l)) ls)"
    by (rule Cons.IH) (use Cons.prems in auto)
  finally show ?case by simp
qed

lemma find_line_end_empty: "no_fold body \<Longrightarrow> find_line_end (CRLF @ body) 0 = Some 0"
  using find_line_end_fold [of "[]" "[]" body "[]"] by simp

lemma parse_headers_loop_end:
  "no_fold body \<Longrightarrow> parse_headers_loop (CRLF @ body) hl = Inr (0, hl)"
  by (subst parse_headers_loop.simps) (simp add: find_line_end_empty)

lemma parse_headers_loop_full:
  "length hl = MAX_HEADERS \<Longrightarrow> parse_headers_loop r hl = Inr (0, hl)"
  by (subst parse_headers_loop.simps) simp

lemma raw_span_append: "raw_span (a @ b) cs = a @ raw_span b cs"
  by (cases cs) simp_all

lemma no_fold_CRLF: "no_fold (CRLF @ body)"
  by (simp add: no_fold_def CRLF_def CR_def SP_def HT_def)

lemma wire_replicate_Suc:
  "wire (replicate (Suc n) l) = wire (replicate n l) @ raw_line l @ CRLF"
  by (induction n) (simp_all add: wire_def)

text \<open>
  C5 as stated does not hold for the header count: the loop of \<open>parse_headers\<close>
  stops when \<open>MAX_HEADERS\<close> headers are stored and the function returns 0. A block
  of 101 header lines is parsed with success into its first 100 headers.
\<close>

theorem parse_headers_truncates_at_MAX_HEADERS:
  "parse_headers (concat (replicate 101 (''a:b'' @ CRLF)) @ CRLF)
     = Inr (0, replicate 100 \<lparr> field_name = ''a'', field_value = ''b'' \<rparr>)"
proof -
  let ?l = "(''a:b'', [] :: string list)"
  have w: "concat (replicate n (''a:b'' @ CRLF)) = wire (replicate n ?l)" for n
    by (induction n) (simp_all add: wire_def raw_line_def)
  have hl: "header_line ?l"
    by (simp add: header_line_def SP_def HT_def LF_def)
  have h: "header_of (raw_line ?l) = \<lparr> field_name = ''a'', field_value = ''b'' \<rparr>"
    by code_simp
  have nf: "no_fold (''a:b'' @ CRLF @ CRLF)"
    by (simp add: no_fold_def SP_def HT_def)
  have "parse_headers (concat (replicate 101 (''a:b'' @ CRLF)) @ CRLF)
          = parse_headers_loop (wire (replicate 100 ?l) @ (''a:b'' @ CRLF @ CRLF)) []"
    unfolding w parse_headers_def
    using wire_replicate_Suc [of 100 ?l] by (simp add: raw_line_def)
  also have "\<dots> = parse_headers_loop (''a:b'' @ CRLF @ CRLF)
                      ([] @ map (\<lambda>l. header_of (raw_line l)) (replicate 100 ?l))"
    by (rule parse_headers_loop_good_lines)
       (use hl nf in \<open>simp_all add: raw_line_def MAX_HEADER_LINE_def MAX_HEADERS_def\<close>)
  also have "\<dots> = Inr (0, [] @ map (\<lambda>l. header_of (raw_line l)) (replicate 100 ?l))"
    by (rule parse_headers_loop_full) (simp add: MAX_HEADERS_def)
  finally show ?thesis by (simp add: h)
qed

text \<open>
  C5, amended. When the header lines before it are well formed and fewer than
  \<open>MAX_HEADERS\<close>, a header line (with its folded continuations) that reaches
  \<open>MAX_HEADER_LINE\<close> bytes or has no colon makes \<open>parse_headers\<close> return
  \<open>-1\<close>. Header lines after the first \<open>MAX_HEADERS\<close> are not looked at: the
  function returns 0 with the first \<open>MAX_HEADERS\<close> headers.
\<close>

theorem parse_headers_failures:
  assumes good: "\<forall>l \<in> set ls. header_line l \<and> CHR '':'' \<in> set (raw_line l)
                   \<and> length (raw_line l) < MAX_HEADER_LINE"
    and r: "no_fold r"
  shows "(length ls < MAX_HEADERS \<and> header_line bad
            \<and> (CHR '':'' \<notin> set (raw_line bad) \<or> MAX_HEADER_LINE \<le> length (raw_line bad))
          \<longrightarrow> parse_headers (wire ls @ raw_line bad @ CRLF @ r)
                = Inr (- 1, map (\<lambda>l. header_of (raw_line l)) ls))
       \<and> (length ls = MAX_HEADERS
          \<longrightarrow> parse_headers (wire ls @ r) = Inr (0, map (\<lambda>l. header_of (raw_line l)) ls))"
proof (intro conjI impI)
  assume a: "length ls < MAX_HEADERS \<and> header_line bad
            \<and> (CHR '':'' \<notin> set (raw_line bad) \<or> MAX_HEADER_LINE \<le> length (raw_line bad))"
  have nf: "no_fold (raw_line bad @ CRLF @ r)"
    using a raw_line_nonempty [of bad] hd_raw_line [of bad]
    by (simp add: no_fold_def header_line_def)
  have "parse_headers (wire ls @ raw_line bad @ CRLF @ r)
          = parse_headers_loop (raw_line bad @ CRLF @ r) (map (\<lambda>l. header_of (raw_line l)) ls)"
    using parse_headers_loop_good_lines [OF good nf, of "[]"] a
    by (simp add: parse_headers_def)
  also have "\<dots> = Inr (- 1, map (\<lambda>l. header_of (raw_line l)) ls)"
    by (rule parse_headers_loop_bad_line) (use a r in auto)
  finally show "parse_headers (wire ls @ raw_line bad @ CRLF @ r)
                = Inr (- 1, map (\<lambda>l. header_of (raw_line l)) ls)" .
next
  assume a: "length ls = MAX_HEADERS"
  have "parse_headers (wire ls @ r)
          = parse_headers_loop r (map (\<lambda>l. header_of (raw_line l)) ls)"
    using parse_headers_loop_good_lines [OF good r, of "[]"] a
    by (simp add: parse_headers_def)
  also have "\<dots> = Inr (0, map (\<lambda>l. header_of (raw_line l)) ls)"
    by (rule parse_headers_loop_full) (simp add: a)
  finally show "parse_headers (wire ls @ r) = Inr (0, map (\<lambda>l. header_of (raw_line l)) ls)" .
qed
theorem parse_headers_failures_witness:
  "parse_headers (''CSeq: 1'' @ CRLF @ ''Broken header'' @ CRLF @ CRLF)
     = Inr (- 1, [\<lparr> field_name = ''CSeq'', field_value = '' 1'' \<rparr>])"
proof -
  let ?ls = "[(''CSeq: 1'', [] :: string list)]"
  let ?bad = "(''Broken header'', [] :: string list)"
  have good: "\<forall>l \<in> set ?ls. header_line l \<and> CHR '':'' \<in> set (raw_line l)
                   \<and> length (raw_line l) < MAX_HEADER_LINE"
    by (simp add: header_line_def raw_line_def SP_def HT_def LF_def MAX_HEADER_LINE_def)
  have r: "no_fold CRLF" using no_fold_CRLF [of "[]"] by simp
  have bad: "length ?ls < MAX_HEADERS \<and> header_line ?bad
            \<and> (CHR '':'' \<notin> set (raw_line ?bad) \<or> MAX_HEADER_LINE \<le> length (raw_line ?bad))"
    by (simp add: header_line_def raw_line_def SP_def HT_def LF_def MAX_HEADERS_def)
  have h: "header_of ''CSeq: 1'' = \<lparr> field_name = ''CSeq'', field_value = '' 1'' \<rparr>"
    by code_simp
  from parse_headers_failures [OF good r, of ?bad] bad
  have "parse_headers (wire ?ls @ raw_line ?bad @ CRLF @ CRLF)
          = Inr (- 1, map (\<lambda>l. header_of (raw_line l)) ?ls)"
    by blast
  then show ?thesis
    by (simp add: wire_def raw_line_def h)
qed

subsection \<open>Folded header values\<close>

text \<open>
  C6 as stated does not hold: the value of a folded header keeps the CR LF and the
  white space of the fold, so it differs from the value of the unfolded header.
\<close>

theorem folded_differs_from_unfolded:
  "parse_headers folded_message
     = Inr (0, [\<lparr> field_name = ''Subject'', field_value = '' a'' @ CRLF @ '' b'' \<rparr>])
   \<and> parse_headers unfolded_message
     = Inr (0, [\<lparr> field_name = ''Subject'', field_value = '' a b'' \<rparr>])
   \<and> parse_headers folded_message \<noteq> parse_headers unfolded_message"
  by code_simp

lemma drop_trailing_space_idem:
  "drop_trailing_space (drop_trailing_space s) = drop_trailing_space s"
proof -
  have "dropWhile isspace (dropWhile isspace (rev s)) = dropWhile isspace (rev s)"
    by (metis dropWhile_eq_Nil_conv dropWhile_idem hd_dropWhile list.collapse dropWhile.simps(2))
  then show ?thesis by (simp add: drop_trailing_space_def)
qed

lemma get_trimmed_string_trim_whitespace:
  "get_trimmed_string (trim_whitespace s) = get_trimmed_string s"
proof -
  define t where "t = dropWhile isspace s"
  define d where "d = drop_trailing_space t"
  have d: "d = [] \<or> \<not> isspace (hd d)"
  proof (cases t)
    case Nil
    then show ?thesis by (simp add: d_def drop_trailing_space_def)
  next
    case (Cons x xs)
    have x: "\<not> isspace x"
      using hd_dropWhile [of isspace s] Cons unfolding t_def
      by (metis list.distinct(1) list.sel(1))
    have "dropWhile isspace (rev t) = dropWhile isspace (rev xs) @ [x]"
      using x by (simp add: Cons dropWhile_append3)
    then have "d = x # rev (dropWhile isspace (rev xs))"
      by (simp add: d_def drop_trailing_space_def)
    with x show ?thesis by simp
  qed
  have "dropWhile isspace (takeWhile isspace s @ d) = dropWhile isspace d"
    by (rule dropWhile_append2) (auto dest: set_takeWhileD)
  also have "\<dots> = d" using d by (cases d) auto
  finally have "get_trimmed_string (trim_whitespace s) = drop_trailing_space d"
    by (simp add: get_trimmed_string_def trim_whitespace_def t_def d_def)
  then show ?thesis
    by (simp add: d_def t_def drop_trailing_space_idem get_trimmed_string_def)
qed

lemma header_of_folded:
  assumes "CHR '':'' \<notin> set name"
  shows "header_of (raw_span (name @ CHR '':'' # v) cs)
           = \<lparr> field_name = trim_whitespace name,
               field_value = trim_whitespace (raw_span v cs) \<rparr>"
proof -
  have raw: "raw_span (name @ CHR '':'' # v) cs = name @ CHR '':'' # raw_span v cs"
    using raw_span_append [of "name @ [CHR '':'']" v cs] by simp
  show ?thesis
    using assms by (simp add: raw header_of_def takeWhile_append dropWhile_append)
qed

text \<open>
  C6, amended. In a header block of well-formed header lines, a header whose value is
  folded over continuation lines is parsed into one pair, between the pairs of the
  headers before and after it. White space at the two ends aside, its field name is the
  text before the first colon and its field value is the raw text after the colon
  through all continuation lines, with the CR LF of every fold and the white space that
  begins each continuation line kept in it.
\<close>

theorem folded_header_keeps_raw_span:
  assumes before: "\<forall>l \<in> set ls1. header_line l \<and> CHR '':'' \<in> set (raw_line l)
                     \<and> length (raw_line l) < MAX_HEADER_LINE"
    and after: "\<forall>l \<in> set ls2. header_line l \<and> CHR '':'' \<in> set (raw_line l)
                     \<and> length (raw_line l) < MAX_HEADER_LINE"
    and line: "header_line (name @ CHR '':'' # v, cs)"
    and name: "CHR '':'' \<notin> set name"
    and short: "length (raw_span (name @ CHR '':'' # v) cs) < MAX_HEADER_LINE"
    and count: "length ls1 + length ls2 < MAX_HEADERS"
    and body: "no_fold body"
  shows "\<exists>h. parse_headers (wire ls1 @ raw_span (name @ CHR '':'' # v) cs @ CRLF
                              @ wire ls2 @ CRLF @ body)
               = Inr (0, map (\<lambda>l. header_of (raw_line l)) ls1 @ h
                           # map (\<lambda>l. header_of (raw_line l)) ls2)
             \<and> get_trimmed_string (field_name h) = get_trimmed_string name
             \<and> get_trimmed_string (field_value h) = get_trimmed_string (raw_span v cs)"
proof -
  let ?l = "(name @ CHR '':'' # v, cs)"
  let ?ls = "ls1 @ ?l # ls2"
  let ?H = "\<lambda>l. header_of (raw_line l)"
  have good: "\<forall>l \<in> set ?ls. header_line l \<and> CHR '':'' \<in> set (raw_line l)
                \<and> length (raw_line l) < MAX_HEADER_LINE"
    using before after line short raw_span_append [of "name @ [CHR '':'']" v cs]
    by (auto simp: raw_line_def)
  have shape: "wire ls1 @ raw_span (name @ CHR '':'' # v) cs @ CRLF @ wire ls2 @ CRLF @ body
                = wire ?ls @ CRLF @ body"
    by (simp add: wire_def raw_line_def)
  have "parse_headers (wire ?ls @ CRLF @ body) = parse_headers_loop (CRLF @ body) (map ?H ?ls)"
    using parse_headers_loop_good_lines [OF good no_fold_CRLF [of body], of "[]"] count
    by (simp add: parse_headers_def)
  also have "\<dots> = Inr (0, map ?H ?ls)"
    by (rule parse_headers_loop_end [OF body])
  finally have run: "parse_headers (wire ?ls @ CRLF @ body)
      = Inr (0, map ?H ls1 @ ?H ?l # map ?H ls2)"
    by simp
  have h: "?H ?l = \<lparr> field_name = trim_whitespace name,
                      field_value = trim_whitespace (raw_span v cs) \<rparr>"
    using header_of_folded [OF name] by (simp add: raw_line_def)
  show ?thesis
    unfolding shape
    by (rule exI [of _ "?H ?l"]) (simp add: run h get_trimmed_string_trim_whitespace)
qed

theorem folded_header_keeps_raw_span_witness:
  "\<exists>h. parse_headers folded_block
          = Inr (0, [\<lparr> field_name = ''CSeq'', field_value = '' 1'' \<rparr>, h,
                     \<lparr> field_name = ''Content-Length'', field_value = '' 0'' \<rparr>])
       \<and> get_trimmed_string (field_name h) = ''Subject''
       \<and> get_trimmed_string (field_value h) = ''a'' @ CRLF @ '' b''"
proof -
  let ?ls1 = "[(''CSeq: 1'', [] :: string list)]"
  let ?ls2 = "[(''Content-Length: 0'', [] :: string list)]"
  have before: "\<forall>l \<in> set ?ls1. header_line l \<and> CHR '':'' \<in> set (raw_line l)
                   \<and> length (raw_line l) < MAX_HEADER_LINE"
    by (simp add: header_line_def raw_line_def SP_def HT_def LF_def MAX_HEADER_LINE_def)
  have after: "\<forall>l \<in> set ?ls2. header_line l \<and> CHR '':'' \<in> set (raw_line l)
                   \<and> length (raw_line l) < MAX_HEADER_LINE"
    by (simp add: header_line_def raw_line_def SP_def HT_def LF_def MAX_HEADER_LINE_def)
  have line: "header_line (''Subject'' @ CHR '':'' # '' a'', ['' b''])"
    by (simp add: header_line_def SP_def HT_def LF_def)
  have name: "CHR '':'' \<notin> set ''Subject''" by simp
  have short: "length (raw_span (''Subject'' @ CHR '':'' # '' a'') ['' b'']) < MAX_HEADER_LINE"
    by (simp add: MAX_HEADER_LINE_def)
  have count: "length ?ls1 + length ?ls2 < MAX_HEADERS"
    by (simp add: MAX_HEADERS_def)
  have body: "no_fold []" by (simp add: no_fold_def)
  have msg: "wire ?ls1 @ raw_span (''Subject'' @ CHR '':'' # '' a'') ['' b''] @ CRLF
               @ wire ?ls2 @ CRLF @ [] = folded_block"
    by (simp add: folded_block_def wire_def raw_line_def)
  have h1: "map (\<lambda>l. header_of (raw_line l)) ?ls1
              = [\<lparr> field_name = ''CSeq'', field_value = '' 1'' \<rparr>]"
    by code_simp
  have h2: "map (\<lambda>l. header_of (raw_line l)) ?ls2
              = [\<lparr> field_name = ''Content-Length'', field_value = '' 0'' \<rparr>]"
    by code_simp
  have t1: "get_trimmed_string ''Subject'' = ''Subject''" by code_simp
  have t2: "get_trimmed_string (raw_span '' a'' ['' b'']) = ''a'' @ CRLF @ '' b''" by code_simp
  from folded_header_keeps_raw_span [OF before after line name short count body,
         unfolded msg h1 h2 t1 t2]
  show ?thesis by simp
qed

subsection \<open>A scheme that is not the first challenge\<close>








lemma return_code_copy_params [simp]:
  "return_code (copy_params kvs j n out) = return_code out"
  by (induction kvs j n out rule: copy_params.induct) auto




























lemma drop_trans: "x = drop a y \<Longrightarrow> y = drop b z \<Longrightarrow> \<exists>n. x = drop n z"
  by (metis drop_drop)
















text \<open>
  The property leaves aside a quoted value that ends in a backslash. The loop that
  copies a quoted value takes a quote after a backslash for an escaped one, also when
  the backslash is itself escaped; it then runs on into the next challenge, and Basic
  is not found.
\<close>

lemma CheckAuthScheme_escaped_backslash:
  "CheckAuthScheme challenge_escaped_backslash ''Basic''
     = Inr \<lparr> return_code = - 10, auth_params = [Some (''None'', ''None'')],
             auth_paramcount = Some 1 \<rparr>"
  by code_simp

subsection \<open>Realm comparison\<close>















end
